theory Spec2Isabelle
  imports Complex_Main "HOL-Library.Sublist" "HOL-Library.Multiset"
begin

section \<open>The frame detection pipeline of \<^verbatim>\<open>apps/inference/main.py\<close>\<close>

text \<open>
  The development embeds the five components of the inference server: the letterbox
  geometry (\<^verbatim>\<open>preprocess_letterbox\<close>), the decoder (\<^verbatim>\<open>decode_yolov8\<close>), greedy
  non-maximum suppression (\<^verbatim>\<open>nms\<close>) and the per-connection loop (\<^verbatim>\<open>detect_ws\<close>).

  Conventions of the embedding.
  \<^item> Python \<^verbatim>\<open>int\<close> is \<open>int\<close>; tensor dimensions, which numpy keeps non-negative, are
    \<open>nat\<close>.
  \<^item> The letterbox arithmetic is modelled in double precision: every division and
    multiplication is followed by the rounding \<open>fl\<close> to the nearest double, ties to
    even, because the rounded product decides the drawn size.
  \<^item> In the decoder and in NMS the numpy and Python floating-point numbers are modelled
    as \<open>real\<close>: rounding error, infinities and NaN are abstracted away. Where numpy
    would divide by zero and produce an infinity or a NaN, HOL's \<open>x / 0 = 0\<close> stands
    in; the properties below that touch such values are stated after the clamp to
    \<open>[0, 1]\<close>, which absorbs them.
  \<^item> An exception is a value: a function that can raise returns \<open>py_exc + 'a\<close>, with
    \<open>Inl\<close> the exception.
  \<^item> The imaging library, the inference session, the clock and the transport are
    external collaborators; what they compute is a parameter of the model (the record
    \<open>env\<close>) and nothing is assumed about it.
\<close>

subsection \<open>Exceptions\<close>

text \<open>
  The Python exception classes that the embedded code can raise by itself, and
  \<open>LibraryError\<close> for whatever an external collaborator raises (with its message).
  \<open>InvalidImage\<close> is the error kind that the specification names for undecodable or
  zero-sized images; the source defines no such class and no equation below returns it.
\<close>

datatype py_exc =
    ZeroDivisionError
  | TypeError
  | ValueError
  | AttributeError
  | IndexError
  | OverflowError
  | LibraryError string
  | InvalidImage

subsection \<open>Letterbox transform (lines 66--82)\<close>

text \<open>
  Python's one-argument \<^verbatim>\<open>round\<close> on a float returns the nearest integer and rounds a
  tie to the even neighbour.
\<close>

definition py_round :: "real \<Rightarrow> int" where
  "py_round x =
     (let f = \<lfloor>x\<rfloor>; r = x - of_int f
      in if r < 1 / 2 then f
         else if 1 / 2 < r then f + 1
         else if even f then f else f + 1)"

text \<open>
  Double precision. \<open>ilog2 x\<close> is the binary exponent of a positive \<open>x\<close>, the integer
  \<open>k\<close> with \<open>2^k \<le> x < 2^(k+1)\<close>, found by halving or doubling. \<open>fl x\<close> is the
  double nearest to \<open>x\<close>: the significand \<open>x / 2^(k-52)\<close> is rounded to an integer, a
  tie to the even one. The exponent is not bounded, so \<open>fl\<close> is the rounding of the
  machine for magnitudes between \<open>2^-1022\<close> and \<open>2^1024\<close>, which covers every value
  the transform meets on sizes that an image or a canvas can have.
\<close>

function ilog2_ge :: "real \<Rightarrow> int" where
  "ilog2_ge x = (if 2 \<le> x then ilog2_ge (x / 2) + 1 else 0)"
  by pat_completeness auto
termination
proof (relation "measure (\<lambda>x. nat \<lfloor>x\<rfloor>)")
  show "wf (measure (\<lambda>x. nat \<lfloor>x\<rfloor>))" by simp
next
  fix x :: real assume "2 \<le> x"
  then have "x / 2 < real_of_int \<lfloor>x\<rfloor>" by linarith
  then have "\<lfloor>x / 2\<rfloor> < \<lfloor>x\<rfloor>" by linarith
  moreover have "0 < \<lfloor>x\<rfloor>" using \<open>2 \<le> x\<close> by linarith
  ultimately show "(x / 2, x) \<in> measure (\<lambda>x. nat \<lfloor>x\<rfloor>)" by simp
qed

function ilog2_lt :: "real \<Rightarrow> int" where
  "ilog2_lt x = (if 0 < x \<and> x < 1 then ilog2_lt (2 * x) - 1 else 0)"
  by pat_completeness auto
termination
proof (relation "measure (\<lambda>x. nat \<lfloor>1 / x\<rfloor>)")
  show "wf (measure (\<lambda>x. nat \<lfloor>1 / x\<rfloor>))" by simp
next
  fix x :: real assume a: "0 < x \<and> x < 1"
  define y where "y = 1 / x"
  from a have "1 < y" by (simp add: y_def)
  then have f: "1 \<le> \<lfloor>y\<rfloor>" by linarith
  then have "1 \<le> real_of_int \<lfloor>y\<rfloor>" by linarith
  moreover have "y < real_of_int \<lfloor>y\<rfloor> + 1" by linarith
  ultimately have "y / 2 < real_of_int \<lfloor>y\<rfloor>" by linarith
  then have lt: "\<lfloor>y / 2\<rfloor> < \<lfloor>y\<rfloor>" by linarith
  have eq: "\<lfloor>1 / (2 * x)\<rfloor> = \<lfloor>y / 2\<rfloor>" by (simp add: y_def mult.commute)
  have "nat \<lfloor>1 / (2 * x)\<rfloor> < nat \<lfloor>y\<rfloor>"
    unfolding eq using lt f by linarith
  then have "nat \<lfloor>1 / (2 * x)\<rfloor> < nat \<lfloor>1 / x\<rfloor>"
    by (simp only: y_def)
  then show "(2 * x, x) \<in> measure (\<lambda>x. nat \<lfloor>1 / x\<rfloor>)"
    by (simp only: in_measure)
qed

declare ilog2_ge.simps [simp del] ilog2_lt.simps [simp del]

definition ilog2 :: "real \<Rightarrow> int" where
  "ilog2 x = (if 1 \<le> x then ilog2_ge x else ilog2_lt x)"

definition fl :: "real \<Rightarrow> real" where
  "fl x = (if x = 0 then 0
           else let e = ilog2 \<bar>x\<bar> - 52
                in real_of_int (py_round (x / 2 powi e)) * 2 powi e)"

text \<open>The unit roundoff of double precision.\<close>

definition u53 :: real where
  "u53 = 1 / 2 ^ 53"

text \<open>The dictionary \<^verbatim>\<open>lb\<close> returned next to the tensor (line 82).\<close>

record letterbox =
  dx :: int
  dy :: int
  draw_w :: int
  draw_h :: int
  model :: int
  src_w :: int
  src_h :: int

text \<open>
  Lines 69--73: the arithmetic of the transform. \<^verbatim>\<open>model_size / src_w\<close> is Python's true
  division of two integers, the correctly rounded quotient, which raises
  \<^verbatim>\<open>ZeroDivisionError\<close> on a zero divisor; the first division is evaluated first, and
  both raise the same class. \<^verbatim>\<open>src_w * scale\<close> converts the integer to a double and
  rounds the product.
\<close>

definition letterbox_params :: "int \<Rightarrow> int \<Rightarrow> int \<Rightarrow> py_exc + letterbox" where
  "letterbox_params w h model_size =
     (if w = 0 then Inl ZeroDivisionError
      else if h = 0 then Inl ZeroDivisionError
      else
        let scale = min (fl (real_of_int model_size / real_of_int w))
                        (fl (real_of_int model_size / real_of_int h));
            dw = py_round (fl (fl (real_of_int w) * scale));
            dh = py_round (fl (fl (real_of_int h) * scale))
        in Inr \<lparr> dx = (model_size - dw) div 2, dy = (model_size - dh) div 2,
                 draw_w = dw, draw_h = dh, model = model_size,
                 src_w = w, src_h = h \<rparr>)"

text \<open>
  The external collaborators. \<open>img_size\<close> is \<^verbatim>\<open>img.size\<close>; \<open>pil_canvas\<close> stands for
  the pixels that lines 75--81 produce (the black canvas, the resize, the paste and the
  conversion to an NCHW array), given the image, the model size, the drawn size and the
  paste offset; \<open>open_image\<close> is \<^verbatim>\<open>base64.b64decode\<close> followed by \<^verbatim>\<open>Image.open\<close> and
  \<^verbatim>\<open>convert\<close>; \<open>session_run\<close> is \<^verbatim>\<open>SESSION.run\<close> together with the output names of
  the session; \<open>perf_counter\<close> gives the reading of the clock at its n-th call, in
  seconds; \<open>int_of_str\<close> and \<open>float_of_str\<close> are the builtins \<^verbatim>\<open>int\<close> and \<^verbatim>\<open>float\<close>
  on a string.
\<close>

datatype ort_value = Tensor "nat list" "real list" | NonTensor

record ('img, 'arr) env =
  img_size :: "'img \<Rightarrow> int \<times> int"
  pil_canvas :: "'img \<Rightarrow> int \<Rightarrow> int \<times> int \<Rightarrow> int \<times> int \<Rightarrow> 'arr"
  open_image :: "string \<Rightarrow> py_exc + 'img"
  session_run :: "'arr \<Rightarrow> py_exc + (string \<times> ort_value) list"
  perf_counter :: "nat \<Rightarrow> real"
  int_of_str :: "string \<Rightarrow> py_exc + int"
  float_of_str :: "string \<Rightarrow> py_exc + real"

text \<open>
  \<^verbatim>\<open>preprocess_letterbox\<close>. The imaging library checks the sizes it is given:
  \<^verbatim>\<open>Image.new\<close> (line 75) refuses a negative side with \<^verbatim>\<open>ValueError\<close> and a side
  that does not fit a C \<^verbatim>\<open>int\<close> with \<^verbatim>\<open>OverflowError\<close>; \<^verbatim>\<open>img.resize\<close> (line 76)
  refuses a requested side below 1 with \<^verbatim>\<open>ValueError\<close>. On sizes that pass, the imaging
  calls are taken to succeed.
\<close>

definition preprocess_letterbox ::
  "('img, 'arr) env \<Rightarrow> 'img \<Rightarrow> int \<Rightarrow> py_exc + ('arr \<times> letterbox)" where
  "preprocess_letterbox E img model_size =
     (case img_size E img of (w, h) \<Rightarrow>
        (case letterbox_params w h model_size of
           Inl e \<Rightarrow> Inl e
         | Inr lb \<Rightarrow>
             if model_size < 0 then Inl ValueError
             else if 2 ^ 31 \<le> model_size then Inl OverflowError
             else if draw_w lb < 1 \<or> draw_h lb < 1 then Inl ValueError
             else Inr (pil_canvas E img model_size (draw_w lb, draw_h lb) (dx lb, dy lb),
                       lb)))"

subsection \<open>Detections and the decoder (lines 85--152)\<close>

text \<open>A detection is the dictionary appended at lines 144--151.\<close>

record detection =
  label :: int
  score :: real
  xmin :: real
  ymin :: real
  xmax :: real
  ymax :: real

definition sigmoid :: "real \<Rightarrow> real" where
  "sigmoid x = 1 / (1 + exp (- x))"

text \<open>
  Line 101 decides the layout of a three-dimensional output: the first branch reads the
  array as it is (attributes by boxes), the \<^verbatim>\<open>else\<close> branch transposes it.
\<close>

datatype layout = ChannelFirst | BoxFirst

definition layout_of :: "nat list \<Rightarrow> layout" where
  "layout_of dims =
     (if 6 \<le> dims ! 1 \<and> dims ! 1 < dims ! 2 then ChannelFirst else BoxFirst)"

text \<open>
  \<^verbatim>\<open>data.reshape(dims)[0]\<close>: the first batch entry of the row-major array, as a list of
  rows. Indexing an axis of size zero raises \<^verbatim>\<open>IndexError\<close>.
\<close>

definition reshape0 :: "nat list \<Rightarrow> real list \<Rightarrow> py_exc + real list list" where
  "reshape0 dims data =
     (if dims ! 0 = 0 then Inl IndexError
      else Inr (map (\<lambda>i. map (\<lambda>j. data ! (i * dims ! 2 + j)) [0..<dims ! 2]) [0..<dims ! 1]))"

text \<open>\<^verbatim>\<open>.transpose(1, 0)\<close> of a matrix with \<open>r\<close> rows and \<open>c\<close> columns.\<close>

definition transpose10 :: "nat \<Rightarrow> nat \<Rightarrow> real list list \<Rightarrow> real list list" where
  "transpose10 r c m = map (\<lambda>j. map (\<lambda>i. m ! i ! j) [0..<r]) [0..<c]"

text \<open>Lines 102--110: the matrix \<^verbatim>\<open>x\<close> (attributes by boxes) and \<^verbatim>\<open>num_props\<close>.\<close>

definition layout_matrix :: "nat list \<Rightarrow> real list \<Rightarrow> py_exc + (nat \<times> real list list)" where
  "layout_matrix dims data =
     (case reshape0 dims data of
        Inl e \<Rightarrow> Inl e
      | Inr m \<Rightarrow>
          (case layout_of dims of
             ChannelFirst \<Rightarrow> Inr (dims ! 2, m)
           | BoxFirst \<Rightarrow> Inr (dims ! 1, transpose10 (dims ! 1) (dims ! 2) m)))"

text \<open>\<^verbatim>\<open>scores.max()\<close> and \<^verbatim>\<open>scores.min()\<close> over all entries (of a non-empty array).\<close>

definition list_max :: "real list \<Rightarrow> real" where
  "list_max vs = foldl max (hd vs) (tl vs)"

definition list_min :: "real list \<Rightarrow> real" where
  "list_min vs = foldl min (hd vs) (tl vs)"

text \<open>\<^verbatim>\<open>np.argmax\<close> along a column: the index of the first occurrence of the maximum.\<close>

fun argmax_from :: "nat \<Rightarrow> real \<Rightarrow> nat \<Rightarrow> real list \<Rightarrow> nat" where
  "argmax_from bi bv i [] = bi"
| "argmax_from bi bv i (v # vs) =
     (if bv < v then argmax_from i v (Suc i) vs else argmax_from bi bv (Suc i) vs)"

definition argmax :: "real list \<Rightarrow> nat" where
  "argmax vs = argmax_from 0 (hd vs) 1 (tl vs)"

definition clamp01 :: "real \<Rightarrow> real" where
  "clamp01 v = max 0 (min 1 v)"

text \<open>
  One turn of the loop of lines 134--151, for candidate \<open>i\<close>: \<open>None\<close> is
  \<^verbatim>\<open>continue\<close>, \<open>Some d\<close> is the appended detection. The arguments are the arrays
  \<^verbatim>\<open>best_cls\<close>, \<^verbatim>\<open>best_score\<close>, \<^verbatim>\<open>x1\<close>, \<^verbatim>\<open>y1\<close>, \<^verbatim>\<open>x2\<close>, \<^verbatim>\<open>y2\<close>.
\<close>

definition candidate ::
  "letterbox \<Rightarrow> real \<Rightarrow> nat list \<Rightarrow> real list \<Rightarrow> real list \<Rightarrow> real list \<Rightarrow> real list \<Rightarrow> real list
     \<Rightarrow> nat \<Rightarrow> detection option" where
  "candidate lb score_thresh best_cls best_score x1 y1 x2 y2 i =
     (let s = best_score ! i
      in if s < score_thresh then None
         else
           let nx1 = clamp01 (x1 ! i / real_of_int (src_w lb));
               ny1 = clamp01 (y1 ! i / real_of_int (src_h lb));
               nx2 = clamp01 (x2 ! i / real_of_int (src_w lb));
               ny2 = clamp01 (y2 ! i / real_of_int (src_h lb))
           in if nx2 \<le> nx1 \<or> ny2 \<le> ny1 then None
              else Some \<lparr> label = int (best_cls ! i), score = s,
                           xmin = nx1, ymin = ny1, xmax = nx2, ymax = ny2 \<rparr>)"

text \<open>
  Lines 113--151 on the matrix \<open>x\<close>. In both branches \<^verbatim>\<open>4 + num_classes\<close> is the number
  of rows of \<open>x\<close>, so the score block \<^verbatim>\<open>x[4:4 + num_classes, :]\<close> is the rows from the
  fifth on. A reduction over an array without entries raises \<^verbatim>\<open>ValueError\<close> (line 116);
  when \<open>x\<close> has more than four rows the four box rows exist.
\<close>

definition decode_rows ::
  "real list list \<Rightarrow> nat \<Rightarrow> letterbox \<Rightarrow> real \<Rightarrow> py_exc + detection list" where
  "decode_rows x num_props lb score_thresh =
     (let boxes = take 4 x; scores0 = drop 4 x
      in if concat scores0 = [] then Inl ValueError
         else
           let scores = (if 1 < list_max (concat scores0) \<or> list_min (concat scores0) < 0
                         then map (map sigmoid) scores0 else scores0);
               best_cls = map (\<lambda>i. argmax (map (\<lambda>row. row ! i) scores)) [0..<num_props];
               best_score = map (\<lambda>i. scores ! (best_cls ! i) ! i) [0..<num_props];
               cx = boxes ! 0; cy = boxes ! 1; w = boxes ! 2; h = boxes ! 3;
               x1 = map (\<lambda>i. (cx ! i - w ! i / 2 - real_of_int (dx lb))
                               / real_of_int (draw_w lb) * real_of_int (src_w lb)) [0..<num_props];
               y1 = map (\<lambda>i. (cy ! i - h ! i / 2 - real_of_int (dy lb))
                               / real_of_int (draw_h lb) * real_of_int (src_h lb)) [0..<num_props];
               x2 = map (\<lambda>i. (cx ! i + w ! i / 2 - real_of_int (dx lb))
                               / real_of_int (draw_w lb) * real_of_int (src_w lb)) [0..<num_props];
               y2 = map (\<lambda>i. (cy ! i + h ! i / 2 - real_of_int (dy lb))
                               / real_of_int (draw_h lb) * real_of_int (src_h lb)) [0..<num_props]
           in Inr (List.map_filter
                     (candidate lb score_thresh best_cls best_score x1 y1 x2 y2)
                     [0..<num_props]))"

text \<open>
  \<^verbatim>\<open>decode_yolov8\<close>. The dictionary \<^verbatim>\<open>outputs\<close> is an association list in insertion
  order with distinct keys, so the value under its first key is the first entry's. An
  output without a \<^verbatim>\<open>shape\<close> attribute has \<^verbatim>\<open>dims = []\<close>. When the guard of line 100
  fails the function returns the empty list it started with.
\<close>

definition decode_yolov8 ::
  "(string \<times> ort_value) list \<Rightarrow> letterbox \<Rightarrow> real \<Rightarrow> py_exc + detection list" where
  "decode_yolov8 outputs lb score_thresh =
     (case outputs of
        [] \<Rightarrow> Inl IndexError
      | (name, out) # _ \<Rightarrow>
          (case out of
             NonTensor \<Rightarrow> Inr []
           | Tensor dims data \<Rightarrow>
               if length dims = 3 \<and> (6 \<le> dims ! 1 \<or> 6 \<le> dims ! 2) then
                 (case layout_matrix dims data of
                    Inl e \<Rightarrow> Inl e
                  | Inr (num_props, x) \<Rightarrow> decode_rows x num_props lb score_thresh)
               else Inr []))"

subsection \<open>Greedy non-maximum suppression (lines 155--178)\<close>

definition iou :: "detection \<Rightarrow> detection \<Rightarrow> real" where
  "iou a b =
     (let x1 = max (xmin a) (xmin b); y1 = max (ymin a) (ymin b);
          x2 = min (xmax a) (xmax b); y2 = min (ymax a) (ymax b);
          inter = max 0 (x2 - x1) * max 0 (y2 - y1);
          area_a = max 0 (xmax a - xmin a) * max 0 (ymax a - ymin a);
          area_b = max 0 (xmax b - xmin b) * max 0 (ymax b - ymin b);
          union = area_a + area_b - inter
      in if union \<le> 0 then 0 else inter / union)"

text \<open>
  \<^verbatim>\<open>sorted(dets, key=lambda d: d["score"], reverse=True)\<close>: Python's sort is stable,
  also with \<^verbatim>\<open>reverse=True\<close>, so detections of equal score keep their order. The stable
  insertion sort of the library on the negated score is that order.
\<close>

definition sorted_desc :: "detection list \<Rightarrow> detection list" where
  "sorted_desc dets = sort_key (\<lambda>d. - score d) dets"

text \<open>
  The loop of lines 168--177 over the remaining detections, with the list \<^verbatim>\<open>keep\<close>
  built so far. The inner loop is the test whether some kept box overlaps too much; the
  bound \<^verbatim>\<open>max_det\<close> is tested only after an append.
\<close>

fun nms_loop :: "real \<Rightarrow> int \<Rightarrow> detection list \<Rightarrow> detection list \<Rightarrow> detection list" where
  "nms_loop iou_thresh max_det [] keep = keep"
| "nms_loop iou_thresh max_det (d # ds) keep =
     (if list_ex (\<lambda>k. iou_thresh < iou d k) keep
      then nms_loop iou_thresh max_det ds keep
      else if max_det \<le> int (length (keep @ [d])) then keep @ [d]
      else nms_loop iou_thresh max_det ds (keep @ [d]))"

definition nms :: "detection list \<Rightarrow> real \<Rightarrow> int \<Rightarrow> detection list" where
  "nms dets iou_thresh max_det =
     (if dets = [] then [] else nms_loop iou_thresh max_det (sorted_desc dets) [])"

subsection \<open>The session loop (lines 183--227)\<close>

text \<open>
  A received message is whatever \<^verbatim>\<open>json.loads\<close> produces: \<^verbatim>\<open>None\<close>, a boolean, a
  number, a string, a list or a dictionary (an association list with distinct keys).
\<close>

datatype pyval =
    PNone
  | PBool bool
  | PInt int
  | PFloat real
  | PStr string
  | PList "pyval list"
  | PDict "(string \<times> pyval) list"

text \<open>\<^verbatim>\<open>msg.get(key, default)\<close>: only a dictionary has the method.\<close>

definition msg_get :: "pyval \<Rightarrow> string \<Rightarrow> pyval \<Rightarrow> py_exc + pyval" where
  "msg_get msg key dflt =
     (case msg of
        PDict kvs \<Rightarrow> Inr (case map_of kvs key of None \<Rightarrow> dflt | Some v \<Rightarrow> v)
      | _ \<Rightarrow> Inl AttributeError)"

text \<open>
  The builtins \<^verbatim>\<open>int\<close> and \<^verbatim>\<open>float\<close> on a received value. \<^verbatim>\<open>int\<close> truncates a float
  towards zero; \<^verbatim>\<open>float\<close> of an integer beyond the range of a double raises
  \<^verbatim>\<open>OverflowError\<close>; \<^verbatim>\<open>None\<close>, lists and dictionaries raise \<^verbatim>\<open>TypeError\<close>.
\<close>

definition py_int :: "('img, 'arr) env \<Rightarrow> pyval \<Rightarrow> py_exc + int" where
  "py_int E v =
     (case v of
        PInt n \<Rightarrow> Inr n
      | PBool b \<Rightarrow> Inr (if b then 1 else 0)
      | PFloat r \<Rightarrow> Inr (if 0 \<le> r then \<lfloor>r\<rfloor> else \<lceil>r\<rceil>)
      | PStr s \<Rightarrow> int_of_str E s
      | _ \<Rightarrow> Inl TypeError)"

definition py_float :: "('img, 'arr) env \<Rightarrow> pyval \<Rightarrow> py_exc + real" where
  "py_float E v =
     (case v of
        PInt n \<Rightarrow> (if \<bar>n\<bar> < 2 ^ 1024 - 2 ^ 970 then Inr (real_of_int n) else Inl OverflowError)
      | PBool b \<Rightarrow> Inr (if b then 1 else 0)
      | PFloat r \<Rightarrow> Inr r
      | PStr s \<Rightarrow> float_of_str E s
      | _ \<Rightarrow> Inl TypeError)"

text \<open>\<^verbatim>\<open>not v\<close>: the values Python takes for false.\<close>

definition falsy :: "pyval \<Rightarrow> bool" where
  "falsy v =
     (case v of
        PNone \<Rightarrow> True
      | PBool b \<Rightarrow> \<not> b
      | PInt n \<Rightarrow> n = 0
      | PFloat r \<Rightarrow> r = 0
      | PStr s \<Rightarrow> s = []
      | PList vs \<Rightarrow> vs = []
      | PDict kvs \<Rightarrow> kvs = [])"

text \<open>
  \<^verbatim>\<open>decode_image_from_b64\<close> (lines 55--63). On a string the part after the first comma,
  if there is one, goes to the decoder. The function is called on whatever truthy value
  the message carries: \<^verbatim>\<open>"," in v\<close> raises \<^verbatim>\<open>TypeError\<close> on a number or a boolean; a
  list or dictionary that contains \<^verbatim>\<open>","\<close> has no \<^verbatim>\<open>split\<close>, and one that does not is
  refused by \<^verbatim>\<open>b64decode\<close>.
\<close>

definition decode_image_from_b64 :: "('img, 'arr) env \<Rightarrow> pyval \<Rightarrow> py_exc + 'img" where
  "decode_image_from_b64 E data_url =
     (case data_url of
        PStr s \<Rightarrow>
          open_image E (if CHR '','' \<in> set s then tl (dropWhile (\<lambda>c. c \<noteq> CHR '','') s) else s)
      | PList vs \<Rightarrow> (if PStr '','' \<in> set vs then Inl AttributeError else Inl TypeError)
      | PDict kvs \<Rightarrow> (if '','' \<in> fst ` set kvs then Inl AttributeError else Inl TypeError)
      | _ \<Rightarrow> Inl TypeError)"

definition MODEL_INPUT_SIZE :: int where
  "MODEL_INPUT_SIZE = 320"

text \<open>The two messages of line 217 and of lines 199 and 227.\<close>

record frame_result =
  frame_id :: int
  capture_ts :: real
  recv_ts :: real
  server_recv_ts :: real
  inference_ts :: real
  inference_ms :: real
  detections :: "detection list"

text \<open>
  \<open>ErrorOnly m\<close> is \<^verbatim>\<open>{"error": m}\<close>; \<open>FrameError i e\<close> is
  \<^verbatim>\<open>{"frame_id": i, "error": str(e)}\<close>, kept as the exception whose text is sent.
\<close>

datatype response =
    FrameResult frame_result
  | FrameError int py_exc
  | ErrorOnly string

text \<open>
  The dictionary comprehension of line 212: a later entry with a name already present
  replaces the value and keeps the position of the first.
\<close>

fun dict_set :: "(string \<times> 'v) list \<Rightarrow> string \<Rightarrow> 'v \<Rightarrow> (string \<times> 'v) list" where
  "dict_set [] k v = [(k, v)]"
| "dict_set ((k', v') # kvs) k v =
     (if k' = k then (k, v) # kvs else (k', v') # dict_set kvs k v)"

definition dict_of_pairs :: "(string \<times> 'v) list \<Rightarrow> (string \<times> 'v) list" where
  "dict_of_pairs ps = foldl (\<lambda>d (k, v). dict_set d k v) [] ps"

text \<open>
  The body of the \<^verbatim>\<open>try\<close> of lines 204--225, given the number \<open>n\<close> of clock readings
  taken so far. The result is the number of readings afterwards and either the exception
  that the \<^verbatim>\<open>except\<close> clause of line 226 catches or the message sent at line 217.
\<close>

definition try_body ::
  "('img, 'arr) env \<Rightarrow> nat \<Rightarrow> int \<Rightarrow> real \<Rightarrow> real \<Rightarrow> pyval \<Rightarrow> nat \<times> (py_exc + frame_result)" where
  "try_body E n fid cts srv_ts image_b64 =
     (case decode_image_from_b64 E image_b64 of
        Inl e \<Rightarrow> (n, Inl e)
      | Inr img \<Rightarrow>
     (case preprocess_letterbox E img MODEL_INPUT_SIZE of
        Inl e \<Rightarrow> (n, Inl e)
      | Inr (arr, lb) \<Rightarrow>
     (let t0 = perf_counter E n * 1000
      in case session_run E arr of
        Inl e \<Rightarrow> (n + 1, Inl e)
      | Inr outs \<Rightarrow>
     (let t1 = perf_counter E (n + 1) * 1000;
          outputs = dict_of_pairs outs
      in case decode_yolov8 outputs lb (25 / 100) of
        Inl e \<Rightarrow> (n + 2, Inl e)
      | Inr dets \<Rightarrow>
          (n + 2, Inr \<lparr> frame_id = fid, capture_ts = cts, recv_ts = srv_ts,
                         server_recv_ts = srv_ts, inference_ts = t1,
                         inference_ms = t1 - t0,
                         detections = nms dets (45 / 100) 50 \<rparr>)))))"

text \<open>
  Lines 195--227 for one received message. \<open>Inl e\<close> is an exception that no handler
  catches: lines 195--197 stand outside the \<^verbatim>\<open>try\<close>. \<open>Inr (n', r)\<close> is the message \<open>r\<close>
  sent back, after which the loop goes on.
\<close>

definition handle_frame ::
  "('img, 'arr) env \<Rightarrow> nat \<Rightarrow> pyval \<Rightarrow> py_exc + (nat \<times> response)" where
  "handle_frame E n msg =
     (case msg_get msg ''frame_id'' (PInt (- 1)) of Inl e \<Rightarrow> Inl e | Inr v1 \<Rightarrow>
     (case py_int E v1 of Inl e \<Rightarrow> Inl e | Inr fid \<Rightarrow>
     (case msg_get msg ''capture_ts'' (PInt 0) of Inl e \<Rightarrow> Inl e | Inr v2 \<Rightarrow>
     (case py_float E v2 of Inl e \<Rightarrow> Inl e | Inr cts \<Rightarrow>
     (case msg_get msg ''image_b64'' PNone of Inl e \<Rightarrow> Inl e | Inr image_b64 \<Rightarrow>
        if falsy image_b64 then Inr (n, ErrorOnly ''missing image_b64'')
        else
          let srv_ts = perf_counter E n * 1000
          in (case try_body E (n + 1) fid cts srv_ts image_b64 of
                (n', Inl e) \<Rightarrow> Inr (n', FrameError fid e)
              | (n', Inr fr) \<Rightarrow> Inr (n', FrameResult fr)))))))"

text \<open>
  What \<^verbatim>\<open>ws.receive_json()\<close> does at line 188: the client has disconnected, the call
  raised another exception (a frame that is not JSON), or a value arrived.
\<close>

datatype event = Disconnect | Malformed | Received pyval

text \<open>
  How the coroutine stands after the events it was given: it returned after a disconnect
  (\<open>Closed\<close>), an exception left it (\<open>Crashed\<close>), or it awaits the next message
  (\<open>Waiting\<close>).
\<close>

datatype status = Closed | Crashed py_exc | Waiting

text \<open>
  The \<^verbatim>\<open>while True\<close> loop over the events of a connection: the messages sent, in order,
  and the final status. Sending is taken to succeed.
\<close>

fun detect_ws :: "('img, 'arr) env \<Rightarrow> nat \<Rightarrow> event list \<Rightarrow> response list \<times> status" where
  "detect_ws E n [] = ([], Waiting)"
| "detect_ws E n (Disconnect # evs) = ([], Closed)"
| "detect_ws E n (Malformed # evs) = detect_ws E n evs"
| "detect_ws E n (Received msg # evs) =
     (case handle_frame E n msg of
        Inl e \<Rightarrow> ([], Crashed e)
      | Inr (n', r) \<Rightarrow>
          (case detect_ws E n' evs of (rs, st) \<Rightarrow> (r # rs, st)))"

subsection \<open>Concrete inputs\<close>

text \<open>
  A small environment on which the definitions can be evaluated. An image is its size
  together with the outputs the session will produce for it; the imaging calls hand the
  outputs on; the clock reads \<open>n\<close> seconds at its n-th call; only the
  decimal strings used below convert to numbers.
\<close>

type_synonym sample_img = "(int \<times> int) \<times> (string \<times> ort_value) list"

definition one_box :: "(string \<times> ort_value) list" where
  "one_box = [(''output0'', Tensor [1, 1, 6] [160, 160, 100, 100, 9 / 10, 1 / 10])]"

definition flat_output :: "(string \<times> ort_value) list" where
  "flat_output = [(''output0'', Tensor [1, 6] [160, 160, 100, 100, 9 / 10, 1 / 10])]"

definition env0 :: "(sample_img, (string \<times> ort_value) list) env" where
  "env0 =
     \<lparr> img_size = fst,
       pil_canvas = (\<lambda>img m d p. snd img),
       open_image = (\<lambda>s. if s = ''AAAA'' then Inr ((640, 480), one_box)
                          else if s = ''BBBB'' then Inr ((640, 480), flat_output)
                          else if s = ''CCCC'' then Inr ((0, 5), one_box)
                          else Inl (LibraryError ''cannot identify image file'')),
       session_run = Inr,
       perf_counter = real,
       int_of_str = (\<lambda>s. if s = ''7'' then Inr 7 else Inl ValueError),
       float_of_str = (\<lambda>s. if s = ''7'' then Inr 7 else Inl ValueError) \<rparr>"

definition lb0 :: letterbox where
  "lb0 = \<lparr> dx = 0, dy = 40, draw_w = 320, draw_h = 240, model = 320,
           src_w = 640, src_h = 480 \<rparr>"

definition det_a :: detection where
  "det_a = \<lparr> label = 0, score = 9 / 10, xmin = 11 / 32, ymin = 7 / 24,
             xmax = 21 / 32, ymax = 17 / 24 \<rparr>"

definition det_b :: detection where
  "det_b = \<lparr> label = 1, score = 9 / 10, xmin = 0, ymin = 0, xmax = 1 / 10, ymax = 1 / 10 \<rparr>"

definition det_c :: detection where
  "det_c = \<lparr> label = 2, score = 1 / 2, xmin = 1 / 2, ymin = 1 / 2, xmax = 1, ymax = 1 \<rparr>"

definition msg_ok :: pyval where
  "msg_ok = PDict [(''frame_id'', PInt 7), (''image_b64'', PStr ''AAAA'')]"

definition msg_flat :: pyval where
  "msg_flat = PDict [(''frame_id'', PInt 7), (''image_b64'', PStr ''BBBB'')]"

text \<open>A six by six array whose entry in row \<open>i\<close> and column \<open>j\<close> is \<open>10 * i + j\<close>.\<close>

definition square_data :: "real list" where
  "square_data = [ 0,  1,  2,  3,  4,  5,
                  10, 11, 12, 13, 14, 15,
                  20, 21, 22, 23, 24, 25,
                  30, 31, 32, 33, 34, 35,
                  40, 41, 42, 43, 44, 45,
                  50, 51, 52, 53, 54, 55]"

section \<open>Properties\<close>

subsection \<open>Rounding\<close>

text \<open>\<^verbatim>\<open>round\<close> returns a nearest integer, and the even one at a tie.\<close>

lemma py_round_nearest: "\<bar>real_of_int (py_round y) - y\<bar> \<le> 1 / 2"
proof -
  have "real_of_int \<lfloor>y\<rfloor> \<le> y" "y < real_of_int \<lfloor>y\<rfloor> + 1" by linarith+
  then show ?thesis by (auto simp: py_round_def Let_def)
qed

lemma py_round_tie:
  assumes "y = real_of_int k + 1 / 2"
  shows "even (py_round y)"
proof -
  have "\<lfloor>y\<rfloor> = k" using assms by linarith
  then show ?thesis using assms by (simp add: py_round_def Let_def)
qed

lemma py_round_le_if:
  assumes "y < real_of_int m + 1 / 2"
  shows "py_round y \<le> m"
proof -
  have "real_of_int (py_round y) \<le> y + 1 / 2" using py_round_nearest [of y] by linarith
  with assms have "real_of_int (py_round y) < real_of_int m + 1" by linarith
  then show ?thesis by linarith
qed

lemma py_round_ge_if:
  assumes "real_of_int m - 1 / 2 < y"
  shows "m \<le> py_round y"
proof -
  have "y - 1 / 2 \<le> real_of_int (py_round y)" using py_round_nearest [of y] by linarith
  with assms have "real_of_int m - 1 < real_of_int (py_round y)" by linarith
  then show ?thesis by linarith
qed

text \<open>The exponent found by halving or doubling is not above the number.\<close>

lemma ilog2_ge_lower: "1 \<le> x \<Longrightarrow> 2 powi (ilog2_ge x) \<le> x"
proof (induction x rule: ilog2_ge.induct)
  case (1 x)
  show ?case
  proof (cases "2 \<le> x")
    case True
    then have "2 powi (ilog2_ge (x / 2)) \<le> x / 2" using 1 by simp
    then have "2 * 2 powi (ilog2_ge (x / 2)) \<le> x" by simp
    moreover have "ilog2_ge x = ilog2_ge (x / 2) + 1"
      using True by (subst ilog2_ge.simps) simp
    ultimately show ?thesis by (simp add: power_int_add)
  next
    case False
    then have "ilog2_ge x = 0" by (subst ilog2_ge.simps) simp
    with 1 show ?thesis by simp
  qed
qed

lemma ilog2_lt_lower: "0 < x \<Longrightarrow> x < 1 \<Longrightarrow> 2 powi (ilog2_lt x) \<le> x"
proof (induction x rule: ilog2_lt.induct)
  case (1 x)
  have step: "ilog2_lt x = ilog2_lt (2 * x) - 1"
    using 1(2,3) by (subst ilog2_lt.simps) simp
  show ?case
  proof (cases "2 * x < 1")
    case True
    then have "2 powi (ilog2_lt (2 * x)) \<le> 2 * x" using 1 by simp
    then show ?thesis by (simp add: step power_int_diff)
  next
    case False
    then have "ilog2_lt (2 * x) = 0" by (subst ilog2_lt.simps) simp
    with False show ?thesis by (simp add: step power_int_minus)
  qed
qed

lemma ilog2_lower: "0 < x \<Longrightarrow> 2 powi (ilog2 x) \<le> x"
  by (simp add: ilog2_def ilog2_ge_lower ilog2_lt_lower)

text \<open>The relative error of one rounding is at most the unit roundoff.\<close>

lemma fl_error: "\<bar>fl x - x\<bar> \<le> \<bar>x\<bar> * u53"
proof (cases "x = 0")
  case True
  then show ?thesis by (simp add: fl_def)
next
  case False
  define e where "e = ilog2 \<bar>x\<bar> - 52"
  define p :: real where "p = 2 powi e"
  have p: "0 < p" by (simp add: p_def)
  have fl: "fl x = real_of_int (py_round (x / p)) * p"
    using False by (simp add: fl_def e_def p_def Let_def)
  have "\<bar>real_of_int (py_round (x / p)) - x / p\<bar> \<le> 1 / 2" by (rule py_round_nearest)
  then have "\<bar>real_of_int (py_round (x / p)) - x / p\<bar> * p \<le> 1 / 2 * p"
    using p by (intro mult_right_mono) simp_all
  moreover have "\<bar>real_of_int (py_round (x / p)) - x / p\<bar> * p = \<bar>fl x - x\<bar>"
  proof -
    have "\<bar>real_of_int (py_round (x / p)) - x / p\<bar> * p
            = \<bar>(real_of_int (py_round (x / p)) - x / p) * p\<bar>"
      using p by (simp add: abs_mult)
    also have "(real_of_int (py_round (x / p)) - x / p) * p = fl x - x"
      using p by (simp add: fl algebra_simps)
    finally show ?thesis .
  qed
  ultimately have 1: "\<bar>fl x - x\<bar> \<le> p / 2" by simp
  have "p = 2 powi (ilog2 \<bar>x\<bar>) / 2 ^ 52"
    by (simp add: p_def e_def power_int_diff)
  moreover have "2 powi (ilog2 \<bar>x\<bar>) \<le> \<bar>x\<bar>" using False by (intro ilog2_lower) simp
  ultimately have "p / 2 \<le> \<bar>x\<bar> / 2 ^ 52 / 2" by (simp add: divide_right_mono)
  also have "\<dots> = \<bar>x\<bar> * u53" by (simp add: u53_def)
  finally show ?thesis using 1 by linarith
qed

lemma fl_rel: "\<exists>d. fl x = x * (1 + d) \<and> \<bar>d\<bar> \<le> u53"
proof (cases "x = 0")
  case True
  then show ?thesis by (intro exI [of _ 0]) (simp add: fl_def u53_def)
next
  case False
  define d where "d = (fl x - x) / x"
  have "fl x = x * (1 + d)" using False by (simp add: d_def field_simps)
  moreover have "\<bar>d\<bar> = \<bar>fl x - x\<bar> / \<bar>x\<bar>" by (simp add: d_def)
  then have "\<bar>d\<bar> \<le> u53" using fl_error [of x] False
    by (simp add: pos_divide_le_eq mult.commute)
  ultimately show ?thesis by blast
qed

lemma u53_small: "0 < u53" "u53 < 1"
  by (simp_all add: u53_def)

lemma fl_pos: "0 < x \<Longrightarrow> 0 < fl x"
proof -
  assume x: "0 < x"
  obtain d where d: "fl x = x * (1 + d)" "\<bar>d\<bar> \<le> u53" using fl_rel by blast
  with u53_small have "0 < 1 + d" by linarith
  with x d(1) show ?thesis by simp
qed

lemma fl_bounds_nonneg:
  assumes "0 \<le> z"
  shows "z * (1 - u53) \<le> fl z" "fl z \<le> z * (1 + u53)"
proof -
  define t where "t = z * u53"
  have b: "\<bar>fl z - z\<bar> \<le> t" using fl_error [of z] assms by (simp add: t_def)
  have e: "z * (1 - u53) = z - t" "z * (1 + u53) = z + t"
    by (simp_all add: t_def algebra_simps)
  show "z * (1 - u53) \<le> fl z" unfolding e using b by linarith
  show "fl z \<le> z * (1 + u53)" unfolding e using b by linarith
qed

lemma fl_bounds_neg:
  assumes "z < 0"
  shows "z * (1 + u53) \<le> fl z" "fl z \<le> z * (1 - u53)"
proof -
  define t where "t = z * u53"
  have b: "\<bar>fl z - z\<bar> \<le> - t" using fl_error [of z] assms by (simp add: t_def)
  have e: "z * (1 - u53) = z - t" "z * (1 + u53) = z + t"
    by (simp_all add: t_def algebra_simps)
  show "z * (1 + u53) \<le> fl z" unfolding e using b by linarith
  show "fl z \<le> z * (1 - u53)" unfolding e using b by linarith
qed

lemma fl_upper:
  assumes "z \<le> z'"
  shows "\<exists>d. \<bar>d\<bar> \<le> u53 \<and> fl z \<le> z' * (1 + d)"
proof (cases "0 \<le> z")
  case True
  have "fl z \<le> z * (1 + u53)" by (rule fl_bounds_nonneg [OF True])
  also have "\<dots> \<le> z' * (1 + u53)" using assms u53_small by (intro mult_right_mono) simp_all
  finally show ?thesis using u53_small by (intro exI [of _ u53]) simp
next
  case False
  then have "fl z \<le> z * (1 - u53)" by (intro fl_bounds_neg) simp
  also have "\<dots> \<le> z' * (1 - u53)" using assms u53_small by (intro mult_right_mono) simp_all
  finally show ?thesis using u53_small by (intro exI [of _ "- u53"]) simp
qed

lemma fl_lower:
  assumes "z' \<le> z"
  shows "\<exists>d. \<bar>d\<bar> \<le> u53 \<and> z' * (1 + d) \<le> fl z"
proof (cases "0 \<le> z")
  case True
  have "z' * (1 - u53) \<le> z * (1 - u53)" using assms u53_small by (intro mult_right_mono) simp_all
  also have "\<dots> \<le> fl z" by (rule fl_bounds_nonneg [OF True])
  finally show ?thesis using u53_small by (intro exI [of _ "- u53"]) simp
next
  case False
  have "z' * (1 + u53) \<le> z * (1 + u53)" using assms u53_small by (intro mult_right_mono) simp_all
  also have "\<dots> \<le> fl z" using False by (intro fl_bounds_neg) simp
  finally show ?thesis using u53_small by (intro exI [of _ u53]) simp
qed

text \<open>Three roundings in a row stay within \<open>2^-50\<close> of the exact product.\<close>

lemma rel_step:
  fixes c d :: real
  assumes "\<bar>c\<bar> \<le> p" "\<bar>d\<bar> \<le> q"
  shows "\<bar>(1 + c) * (1 + d) - 1\<bar> \<le> p + q + p * q"
proof -
  have "\<bar>c * d\<bar> \<le> p * q"
    unfolding abs_mult using assms by (intro mult_mono) simp_all
  moreover have "(1 + c) * (1 + d) - 1 = c + d + c * d" by (simp add: algebra_simps)
  ultimately show ?thesis using assms by linarith
qed

lemma rel3:
  assumes "\<bar>d1\<bar> \<le> u53" "\<bar>d2\<bar> \<le> u53" "\<bar>d3\<bar> \<le> u53"
  shows "\<bar>(1 + d1) * (1 + d2) * (1 + d3) - 1\<bar> \<le> 1 / 2 ^ 50"
proof -
  have 1: "\<bar>(1 + d1) * (1 + d2) - 1\<bar> \<le> u53 + u53 + u53 * u53"
    by (rule rel_step [OF assms(1,2)])
  have "\<bar>(1 + ((1 + d1) * (1 + d2) - 1)) * (1 + d3) - 1\<bar>
          \<le> (u53 + u53 + u53 * u53) + u53 + (u53 + u53 + u53 * u53) * u53"
    by (rule rel_step [OF 1 assms(3)])
  also have "\<dots> \<le> 1 / 2 ^ 50" by (simp add: u53_def)
  finally show ?thesis by simp
qed

subsection \<open>Letterbox\<close>

text \<open>
  The rounded product \<^verbatim>\<open>side * scale\<close> is at most the model size, up to a relative
  error of \<open>2^-50\<close>, whenever the scale is at most the rounded quotient for that side.
\<close>

lemma draw_upper:
  assumes "0 < a" "s \<le> fl (real_of_int m / real_of_int a)"
  shows "fl (fl (real_of_int a) * s) \<le> real_of_int m + \<bar>real_of_int m\<bar> / 2 ^ 50"
proof -
  define A where "A = fl (real_of_int a)"
  define B where "B = fl (real_of_int m / real_of_int a)"
  obtain d1 where d1: "A = real_of_int a * (1 + d1)" "\<bar>d1\<bar> \<le> u53"
    unfolding A_def using fl_rel by blast
  obtain d2 where d2: "B = real_of_int m / real_of_int a * (1 + d2)" "\<bar>d2\<bar> \<le> u53"
    unfolding B_def using fl_rel by blast
  have "0 < A" unfolding A_def using assms(1) by (intro fl_pos) simp
  then have "A * s \<le> A * B" using assms(2) unfolding B_def by (intro mult_left_mono) simp_all
  then obtain d where d: "\<bar>d\<bar> \<le> u53" "fl (A * s) \<le> A * B * (1 + d)"
    using fl_upper by blast
  define P where "P = (1 + d1) * (1 + d2) * (1 + d)"
  have P: "\<bar>P - 1\<bar> \<le> 1 / 2 ^ 50" unfolding P_def by (rule rel3 [OF d1(2) d2(2) d(1)])
  have "A * B * (1 + d) = real_of_int m * P"
    using assms(1) by (simp add: d1(1) d2(1) P_def)
  also have "\<dots> = real_of_int m + real_of_int m * (P - 1)" by (simp add: algebra_simps)
  also have "real_of_int m * (P - 1) \<le> \<bar>real_of_int m * (P - 1)\<bar>" by simp
  also have "\<bar>real_of_int m * (P - 1)\<bar> \<le> \<bar>real_of_int m\<bar> * (1 / 2 ^ 50)"
    unfolding abs_mult using P by (intro mult_left_mono) simp_all
  finally have "A * B * (1 + d) \<le> real_of_int m + \<bar>real_of_int m\<bar> / 2 ^ 50" by simp
  with d(2) show ?thesis unfolding A_def by linarith
qed

text \<open>
  A number \<open>r\<close> that is below both exact products \<open>a * m / w\<close> and \<open>a * m / h\<close>
  is below the rounded product, up to the same relative error.
\<close>

lemma draw_lower:
  assumes "0 < a" "0 < w" "0 < h" "0 \<le> m" "0 \<le> r"
    and "r \<le> real_of_int a * real_of_int m / real_of_int w"
    and "r \<le> real_of_int a * real_of_int m / real_of_int h"
  shows "r - r / 2 ^ 50
           \<le> fl (fl (real_of_int a) * min (fl (real_of_int m / real_of_int w))
                                           (fl (real_of_int m / real_of_int h)))"
proof -
  define A where "A = fl (real_of_int a)"
  define s where "s = min (fl (real_of_int m / real_of_int w)) (fl (real_of_int m / real_of_int h))"
  obtain d1 where d1: "A = real_of_int a * (1 + d1)" "\<bar>d1\<bar> \<le> u53"
    unfolding A_def using fl_rel by blast
  have q: "r * (1 - u53) \<le> real_of_int a * fl (real_of_int m / real_of_int b)"
    if b: "0 < b" "r \<le> real_of_int a * real_of_int m / real_of_int b" for b
  proof -
    have nn: "0 \<le> real_of_int m / real_of_int b" using assms(4) b(1) by simp
    have "real_of_int m / real_of_int b * (1 - u53) \<le> fl (real_of_int m / real_of_int b)"
      by (rule fl_bounds_nonneg [OF nn])
    then have "real_of_int a * (real_of_int m / real_of_int b * (1 - u53))
                 \<le> real_of_int a * fl (real_of_int m / real_of_int b)"
      using assms(1) by (intro mult_left_mono) simp_all
    moreover have "r * (1 - u53) \<le> real_of_int a * real_of_int m / real_of_int b * (1 - u53)"
      using b(2) u53_small by (intro mult_right_mono) simp_all
    ultimately show ?thesis by (simp add: algebra_simps)
  qed
  have "r * (1 - u53) \<le> real_of_int a * s"
    unfolding s_def using q [OF assms(2) assms(6)] q [OF assms(3) assms(7)] assms(1)
    by (simp add: min_def)
  then have "(1 + d1) * (r * (1 - u53)) \<le> (1 + d1) * (real_of_int a * s)"
    using d1(2) u53_small by (intro mult_left_mono) linarith+
  then have zz: "r * ((1 + d1) * (1 - u53)) \<le> A * s" by (simp add: d1(1) algebra_simps)
  then obtain d where d: "\<bar>d\<bar> \<le> u53" "r * ((1 + d1) * (1 - u53)) * (1 + d) \<le> fl (A * s)"
    using fl_lower by blast
  define P where "P = (1 + d1) * (1 + (- u53)) * (1 + d)"
  have P: "\<bar>P - 1\<bar> \<le> 1 / 2 ^ 50"
    unfolding P_def using u53_small by (intro rel3 [OF d1(2) _ d(1)]) simp
  have "r - r / 2 ^ 50 \<le> r + r * (P - 1)"
  proof -
    have "- (1 / 2 ^ 50) \<le> P - 1" using P by linarith
    then have "r * (- (1 / 2 ^ 50)) \<le> r * (P - 1)" using assms(5) by (intro mult_left_mono)
    then show ?thesis by simp
  qed
  also have "\<dots> = r * ((1 + d1) * (1 - u53)) * (1 + d)" by (simp add: P_def algebra_simps)
  finally show ?thesis using d(2) unfolding A_def s_def by linarith
qed

text \<open>The drawn sides: bounded by the model size, and both at least one pixel when the
  longer side of the image is at most the model size times the shorter one.\<close>

lemma draw_le_model:
  assumes "0 < a" "a = w \<or> a = h" "\<bar>m\<bar> < 2 ^ 31"
  shows "py_round (fl (fl (real_of_int a) * min (fl (real_of_int m / real_of_int w))
                                                (fl (real_of_int m / real_of_int h)))) \<le> m"
proof (rule py_round_le_if)
  have "min (fl (real_of_int m / real_of_int w)) (fl (real_of_int m / real_of_int h))
          \<le> fl (real_of_int m / real_of_int a)"
    using assms(2) by auto
  from draw_upper [OF assms(1) this]
  have "fl (fl (real_of_int a) * min (fl (real_of_int m / real_of_int w))
                                     (fl (real_of_int m / real_of_int h)))
          \<le> real_of_int m + \<bar>real_of_int m\<bar> / 2 ^ 50" .
  moreover have "real_of_int \<bar>m\<bar> < real_of_int (2 ^ 31)"
    using assms(3) by (simp only: of_int_less_iff)
  then have "\<bar>real_of_int m\<bar> / 2 ^ 50 < 1 / 2" by simp
  ultimately show "fl (fl (real_of_int a) * min (fl (real_of_int m / real_of_int w))
                                     (fl (real_of_int m / real_of_int h)))
          < real_of_int m + 1 / 2" by linarith
qed

lemma draw_ge:
  assumes "0 < a" "0 < w" "0 < h" "0 \<le> m" "0 \<le> k" "k < 2 ^ 31"
    and "k * w \<le> a * m" "k * h \<le> a * m"
  shows "k \<le> py_round (fl (fl (real_of_int a) * min (fl (real_of_int m / real_of_int w))
                                                    (fl (real_of_int m / real_of_int h))))"
proof (rule py_round_ge_if)
  have kw: "real_of_int k \<le> real_of_int a * real_of_int m / real_of_int w"
  proof -
    have "real_of_int (k * w) \<le> real_of_int (a * m)" using assms(7) by linarith
    then show ?thesis using assms(2) by (simp add: pos_le_divide_eq)
  qed
  have kh: "real_of_int k \<le> real_of_int a * real_of_int m / real_of_int h"
  proof -
    have "real_of_int (k * h) \<le> real_of_int (a * m)" using assms(8) by linarith
    then show ?thesis using assms(3) by (simp add: pos_le_divide_eq)
  qed
  have "0 \<le> real_of_int k" using assms(5) by simp
  from draw_lower [OF assms(1-4) this kw kh]
  have "real_of_int k - real_of_int k / 2 ^ 50
          \<le> fl (fl (real_of_int a) * min (fl (real_of_int m / real_of_int w))
                                         (fl (real_of_int m / real_of_int h)))" .
  moreover have "real_of_int k < real_of_int (2 ^ 31)"
    using assms(6) by (simp only: of_int_less_iff)
  then have "real_of_int k / 2 ^ 50 < 1 / 2" by simp
  ultimately show "real_of_int k - 1 / 2
          < fl (fl (real_of_int a) * min (fl (real_of_int m / real_of_int w))
                                         (fl (real_of_int m / real_of_int h)))" by linarith
qed

lemma letterbox_params_nonzero:
  assumes "w \<noteq> 0" "h \<noteq> 0"
  shows "letterbox_params w h m =
           Inr \<lparr> dx = (m - py_round (fl (fl (real_of_int w)
                          * min (fl (real_of_int m / real_of_int w))
                                (fl (real_of_int m / real_of_int h))))) div 2,
                 dy = (m - py_round (fl (fl (real_of_int h)
                          * min (fl (real_of_int m / real_of_int w))
                                (fl (real_of_int m / real_of_int h))))) div 2,
                 draw_w = py_round (fl (fl (real_of_int w)
                          * min (fl (real_of_int m / real_of_int w))
                                (fl (real_of_int m / real_of_int h)))),
                 draw_h = py_round (fl (fl (real_of_int h)
                          * min (fl (real_of_int m / real_of_int w))
                                (fl (real_of_int m / real_of_int h)))),
                 model = m, src_w = w, src_h = h \<rparr>"
  using assms by (simp add: letterbox_params_def Let_def)

text \<open>
  Three images at model size 320: one whose products are exact; one whose exact product
  \<open>62.5\<close> is a tie but whose rounded product lies just above it, so that the drawn
  width is 63; one whose rounded product is the tie \<open>2.5\<close>, drawn as 2.
\<close>

lemma letterbox_params_scenario:
  "letterbox_params 640 480 320 = Inr lb0"
  unfolding lb0_def by code_simp

lemma letterbox_params_rounded_product:
  "letterbox_params 725 3712 320 =
     Inr \<lparr> dx = 128, dy = 0, draw_w = 63, draw_h = 320, model = 320,
           src_w = 725, src_h = 3712 \<rparr>"
  by code_simp

lemma letterbox_params_tie:
  "letterbox_params 384 3 320 =
     Inr \<lparr> dx = 0, dy = 159, draw_w = 320, draw_h = 2, model = 320,
           src_w = 384, src_h = 3 \<rparr>"
  by code_simp


text \<open>
  C4. For an image of width \<open>w > 0\<close> and height \<open>h > 0\<close> and a model size \<open>m\<close> (below
  \<open>2^31\<close> in absolute value) the transform computes \<open>scale = min (m / w) (m / h)\<close>
  and the drawn sizes \<open>round (w * scale)\<close> and \<open>round (h * scale)\<close>, in double
  precision: each is a nearest integer of the rounded product, the even one at a tie, and
  each is at most \<open>m\<close>. The offsets are \<open>(m - draw_w) div 2\<close> and
  \<open>(m - draw_h) div 2\<close>, the floor of half the margin. For \<open>m \<ge> 0\<close> the longer side of
  the image is drawn at full model size, with offset 0. The function returns this
  geometry whenever the sizes pass the checks of the imaging library, and whenever the
  function returns, the model size is in that range and the geometry is the one
  described. A 640 by 480 image with model size 320 gives \<open>draw_w = 320\<close>,
  \<open>draw_h = 240\<close>, \<open>dx = 0\<close>, \<open>dy = 40\<close>.
\<close>

theorem letterbox_geometry:
  fixes E :: "('img, 'arr) env"
  assumes "0 < w" "0 < h" "img_size E img = (w, h)"
  shows "(\<forall>arr g. preprocess_letterbox E img m = Inr (arr, g) \<longrightarrow> \<bar>m\<bar> < 2 ^ 31)
       \<and> (\<bar>m\<bar> < 2 ^ 31 \<longrightarrow>
         (\<exists>lb. letterbox_params w h m = Inr lb
           \<and> draw_w lb = py_round (fl (fl (real_of_int w)
                             * min (fl (real_of_int m / real_of_int w))
                                   (fl (real_of_int m / real_of_int h))))
           \<and> draw_h lb = py_round (fl (fl (real_of_int h)
                             * min (fl (real_of_int m / real_of_int w))
                                   (fl (real_of_int m / real_of_int h))))
           \<and> \<bar>real_of_int (draw_w lb) - fl (fl (real_of_int w)
                             * min (fl (real_of_int m / real_of_int w))
                                   (fl (real_of_int m / real_of_int h)))\<bar> \<le> 1 / 2
           \<and> \<bar>real_of_int (draw_h lb) - fl (fl (real_of_int h)
                             * min (fl (real_of_int m / real_of_int w))
                                   (fl (real_of_int m / real_of_int h)))\<bar> \<le> 1 / 2
           \<and> (\<forall>k. fl (fl (real_of_int w)
                             * min (fl (real_of_int m / real_of_int w))
                                   (fl (real_of_int m / real_of_int h)))
                        = real_of_int k + 1 / 2 \<longrightarrow> even (draw_w lb))
           \<and> (\<forall>k. fl (fl (real_of_int h)
                             * min (fl (real_of_int m / real_of_int w))
                                   (fl (real_of_int m / real_of_int h)))
                        = real_of_int k + 1 / 2 \<longrightarrow> even (draw_h lb))
           \<and> draw_w lb \<le> m \<and> draw_h lb \<le> m
           \<and> dx lb = (m - draw_w lb) div 2 \<and> dy lb = (m - draw_h lb) div 2
           \<and> 2 * dx lb \<le> m - draw_w lb \<and> m - draw_w lb \<le> 2 * dx lb + 1
           \<and> 2 * dy lb \<le> m - draw_h lb \<and> m - draw_h lb \<le> 2 * dy lb + 1
           \<and> model lb = m \<and> src_w lb = w \<and> src_h lb = h
           \<and> (0 \<le> m \<and> h \<le> w \<longrightarrow> draw_w lb = m \<and> dx lb = 0)
           \<and> (0 \<le> m \<and> w \<le> h \<longrightarrow> draw_h lb = m \<and> dy lb = 0)
           \<and> (0 \<le> m \<and> 1 \<le> draw_w lb \<and> 1 \<le> draw_h lb \<longrightarrow>
                 preprocess_letterbox E img m =
                   Inr (pil_canvas E img m (draw_w lb, draw_h lb) (dx lb, dy lb), lb))
           \<and> (\<forall>arr g. preprocess_letterbox E img m = Inr (arr, g) \<longrightarrow> g = lb)
           \<and> ((w, h, m) = (640, 480, 320)
                \<longrightarrow> draw_w lb = 320 \<and> draw_h lb = 240 \<and> dx lb = 0 \<and> dy lb = 40)))"
    (is "?A \<and> (?R \<longrightarrow> ?G)")
proof (rule conjI; intro allI impI)
  fix arr g assume "preprocess_letterbox E img m = Inr (arr, g)"
  then have "0 \<le> m \<and> m < 2 ^ 31"
    using assms by (auto simp: preprocess_letterbox_def split: sum.splits if_splits)
  then show "\<bar>m\<bar> < 2 ^ 31" by linarith
next
  assume range: "\<bar>m\<bar> < 2 ^ 31"
  let ?s = "min (fl (real_of_int m / real_of_int w)) (fl (real_of_int m / real_of_int h))"
  let ?dw = "py_round (fl (fl (real_of_int w) * ?s))"
  let ?dh = "py_round (fl (fl (real_of_int h) * ?s))"
  let ?lb = "\<lparr> dx = (m - ?dw) div 2, dy = (m - ?dh) div 2, draw_w = ?dw, draw_h = ?dh,
               model = m, src_w = w, src_h = h \<rparr>"
  have lb: "letterbox_params w h m = Inr ?lb"
    using assms(1,2) by (intro letterbox_params_nonzero) simp_all
  have wle: "?dw \<le> m" using assms(1) range by (intro draw_le_model) simp_all
  have hle: "?dh \<le> m" using assms(2) range by (intro draw_le_model) simp_all
  have m31: "0 \<le> m \<Longrightarrow> m < 2 ^ 31" using range by linarith
  have wfull: "?dw = m" if "0 \<le> m" "h \<le> w"
  proof -
    have 1: "m * w \<le> w * m" by simp
    have "m * h \<le> m * w" using that by (intro mult_left_mono) simp_all
    then have 2: "m * h \<le> w * m" by (simp add: mult.commute)
    have "m \<le> ?dw"
      by (rule draw_ge [OF assms(1) assms(1) assms(2) that(1) that(1) m31 [OF that(1)] 1 2])
    with wle show ?thesis by simp
  qed
  have hfull: "?dh = m" if "0 \<le> m" "w \<le> h"
  proof -
    have 2: "m * h \<le> h * m" by simp
    have "m * w \<le> m * h" using that by (intro mult_left_mono) simp_all
    then have 1: "m * w \<le> h * m" by (simp add: mult.commute)
    have "m \<le> ?dh"
      by (rule draw_ge [OF assms(2) assms(1) assms(2) that(1) that(1) m31 [OF that(1)] 1 2])
    with hle show ?thesis by simp
  qed
  have pre: "preprocess_letterbox E img m = Inr (pil_canvas E img m (?dw, ?dh)
                 ((m - ?dw) div 2, (m - ?dh) div 2), ?lb)"
    if "0 \<le> m" "1 \<le> ?dw" "1 \<le> ?dh"
    using that assms(3) lb m31 by (simp add: preprocess_letterbox_def)
  have uniq: "g = ?lb" if "preprocess_letterbox E img m = Inr (arr, g)" for arr g
    using that assms(3) lb by (auto simp: preprocess_letterbox_def split: if_splits)
  have sc: "?dw = 320 \<and> ?dh = 240 \<and> (m - ?dw) div 2 = 0 \<and> (m - ?dh) div 2 = 40"
    if "(w, h, m) = (640, 480, 320)"
  proof -
    have "Inr ?lb = (Inr lb0 :: py_exc + letterbox)"
      using lb letterbox_params_scenario that by simp
    then have "?lb = lb0" by simp
    then have "draw_w ?lb = draw_w lb0" "draw_h ?lb = draw_h lb0"
      "dx ?lb = dx lb0" "dy ?lb = dy lb0" by simp_all
    then show ?thesis by (simp add: lb0_def)
  qed
  have sel: "draw_w ?lb = ?dw" "draw_h ?lb = ?dh" "dx ?lb = (m - ?dw) div 2"
    "dy ?lb = (m - ?dh) div 2" "model ?lb = m" "src_w ?lb = w" "src_h ?lb = h"
    by simp_all
  have half: "2 * (n div 2) \<le> n" "n \<le> 2 * (n div 2) + 1" for n :: int
    by presburger+
  show ?G
  proof (intro exI [of _ ?lb] conjI allI impI; (unfold sel)?)
    show "letterbox_params w h m = Inr ?lb" by (rule lb)
    show "?dw = ?dw" "?dh = ?dh" by (rule refl)+
    show "\<bar>real_of_int ?dw - fl (fl (real_of_int w) * ?s)\<bar> \<le> 1 / 2"
      by (rule py_round_nearest)
    show "\<bar>real_of_int ?dh - fl (fl (real_of_int h) * ?s)\<bar> \<le> 1 / 2"
      by (rule py_round_nearest)
    show "even ?dw" if "fl (fl (real_of_int w) * ?s) = real_of_int k + 1 / 2" for k
      by (rule py_round_tie [OF that])
    show "even ?dh" if "fl (fl (real_of_int h) * ?s) = real_of_int k + 1 / 2" for k
      by (rule py_round_tie [OF that])
    show "?dw \<le> m" by (rule wle)
    show "?dh \<le> m" by (rule hle)
    show "(m - ?dw) div 2 = (m - ?dw) div 2" "(m - ?dh) div 2 = (m - ?dh) div 2"
      by (rule refl)+
    show "2 * ((m - ?dw) div 2) \<le> m - ?dw" "m - ?dw \<le> 2 * ((m - ?dw) div 2) + 1"
      "2 * ((m - ?dh) div 2) \<le> m - ?dh" "m - ?dh \<le> 2 * ((m - ?dh) div 2) + 1"
      by (rule half)+
    show "m = m" "w = w" "h = h" by (rule refl)+
    show "?dw = m" if "0 \<le> m \<and> h \<le> w" using wfull that by blast
    show "(m - ?dw) div 2 = 0" if "0 \<le> m \<and> h \<le> w"
    proof -
      have "?dw = m" using wfull that by blast
      then show ?thesis by (simp only: diff_self div_0)
    qed
    show "?dh = m" if "0 \<le> m \<and> w \<le> h" using hfull that by blast
    show "(m - ?dh) div 2 = 0" if "0 \<le> m \<and> w \<le> h"
    proof -
      have "?dh = m" using hfull that by blast
      then show ?thesis by (simp only: diff_self div_0)
    qed
    show "preprocess_letterbox E img m =
            Inr (pil_canvas E img m (?dw, ?dh) ((m - ?dw) div 2, (m - ?dh) div 2), ?lb)"
      if "0 \<le> m \<and> 1 \<le> ?dw \<and> 1 \<le> ?dh"
      using pre that by blast
    show "g = ?lb" if "preprocess_letterbox E img m = Inr (arr, g)" for arr g
      by (rule uniq [OF that])
    show "?dw = 320" "?dh = 240" "(m - ?dw) div 2 = 0" "(m - ?dh) div 2 = 40"
      if "(w, h, m) = (640, 480, 320)"
      using sc [OF that] by blast+
  qed
qed

theorem letterbox_geometry_witness:
  "preprocess_letterbox env0 ((640, 480), one_box) 320 = Inr (one_box, lb0)
   \<and> letterbox_params 725 3712 320 =
       Inr \<lparr> dx = 128, dy = 0, draw_w = 63, draw_h = 320, model = 320,
             src_w = 725, src_h = 3712 \<rparr>
   \<and> letterbox_params 384 3 320 =
       Inr \<lparr> dx = 0, dy = 159, draw_w = 320, draw_h = 2, model = 320,
             src_w = 384, src_h = 3 \<rparr>"
proof -
  have sz: "img_size env0 ((640, 480), one_box) = (640, 480)"
    by (simp add: env0_def)
  obtain lb where lb: "letterbox_params 640 480 320 = Inr lb"
    and pre: "0 \<le> (320 :: int) \<and> 1 \<le> draw_w lb \<and> 1 \<le> draw_h lb \<longrightarrow>
              preprocess_letterbox env0 ((640, 480), one_box) 320 =
                Inr (pil_canvas env0 ((640, 480), one_box) 320
                       (draw_w lb, draw_h lb) (dx lb, dy lb), lb)"
    using letterbox_geometry [of 640 480 env0 "((640, 480), one_box)" 320, OF _ _ sz]
    by auto
  from lb have "lb = lb0" by (simp add: letterbox_params_scenario)
  with pre have "preprocess_letterbox env0 ((640, 480), one_box) 320 = Inr (one_box, lb0)"
    by (simp add: lb0_def env0_def)
  then show ?thesis
    using letterbox_params_rounded_product letterbox_params_tie by simp
qed





subsection \<open>Greedy NMS\<close>

lemma iou_sym: "iou a b = iou b a"
  by (simp add: iou_def Let_def max.commute min.commute add.commute)

text \<open>A union area that is not positive gives 0: the division is never reached.\<close>

lemma iou_union_nonpos:
  assumes "max 0 (xmax a - xmin a) * max 0 (ymax a - ymin a)
         + max 0 (xmax b - xmin b) * max 0 (ymax b - ymin b)
         - max 0 (min (xmax a) (xmax b) - max (xmin a) (xmin b))
           * max 0 (min (ymax a) (ymax b) - max (ymin a) (ymin b)) \<le> 0"
  shows "iou a b = 0"
  unfolding iou_def Let_def by (simp only: assms if_True)

lemma subseq_sorted_wrt:
  assumes "subseq xs ys" "sorted_wrt P ys"
  shows "sorted_wrt P xs"
  using assms
proof (induction rule: list_emb.induct)
  case (list_emb_Nil ys)
  then show ?case by simp
next
  case (list_emb_Cons xs ys y)
  then show ?case by simp
next
  case (list_emb_Cons2 x y xs ys)
  then have "set xs \<subseteq> set ys" by (auto dest: list_emb_set)
  with list_emb_Cons2 show ?case by auto
qed

lemma list_ex_iou:
  "list_ex (\<lambda>k. t < iou d k) keep \<longleftrightarrow> \<not> (\<forall>k\<in>set keep. iou d k \<le> t)"
  by (auto simp: list_ex_iff not_le)

text \<open>The loop only appends to \<^verbatim>\<open>keep\<close>, and what it appends it takes in order.\<close>

lemma nms_loop_prefix:
  "\<exists>ys. nms_loop t m ds keep = keep @ ys \<and> subseq ys ds"
proof (induction ds arbitrary: keep)
  case Nil
  then show ?case by simp
next
  case (Cons d ds)
  show ?case
  proof (cases "list_ex (\<lambda>k. t < iou d k) keep")
    case True
    with Cons [of keep] show ?thesis by auto
  next
    case False
    show ?thesis
    proof (cases "m \<le> int (length (keep @ [d]))")
      case True
      with False show ?thesis by auto
    next
      case stop: False
      from Cons [of "keep @ [d]"] obtain ys where
        "nms_loop t m ds (keep @ [d]) = (keep @ [d]) @ ys" "subseq ys ds" by blast
      with False stop show ?thesis by auto
    qed
  qed
qed

text \<open>Every kept box overlaps each box kept before it by at most the threshold.\<close>

lemma nms_loop_pairwise:
  assumes "sorted_wrt (\<lambda>k d. iou d k \<le> t) keep"
  shows "sorted_wrt (\<lambda>k d. iou d k \<le> t) (nms_loop t m ds keep)"
  using assms
proof (induction ds arbitrary: keep)
  case Nil
  then show ?case by simp
next
  case (Cons d ds)
  have app: "\<not> list_ex (\<lambda>k. t < iou d k) keep
               \<Longrightarrow> sorted_wrt (\<lambda>k d. iou d k \<le> t) (keep @ [d])"
    using Cons.prems by (auto simp: sorted_wrt_append list_ex_iou)
  show ?case using Cons.IH [of keep] Cons.IH [of "keep @ [d]"] Cons.prems app
    by auto
qed

lemma nms_loop_length:
  "int (length (nms_loop t m ds keep)) \<le> max m (int (length keep) + 1)"
proof (induction ds arbitrary: keep)
  case Nil
  then show ?case by simp
next
  case (Cons d ds)
  show ?case using Cons [of keep] Cons [of "keep @ [d]"]
    by auto
qed

text \<open>
  On a list whose boxes are pairwise compatible, and on which the bound cannot stop the
  loop before the last element, the loop keeps everything.
\<close>

lemma nms_loop_fixed:
  assumes "sorted_wrt (\<lambda>k d. iou d k \<le> t) (keep @ ds)"
    and "length ds \<le> 1 \<or> int (length keep + length ds) \<le> m"
  shows "nms_loop t m ds keep = keep @ ds"
  using assms
proof (induction ds arbitrary: keep)
  case Nil
  then show ?case by simp
next
  case (Cons d ds)
  from Cons.prems(1) have no: "\<not> list_ex (\<lambda>k. t < iou d k) keep"
    by (auto simp: sorted_wrt_append list_ex_iou)
  show ?case
  proof (cases "m \<le> int (length (keep @ [d]))")
    case True
    with Cons.prems(2) have "length ds = 0" by (cases ds) auto
    then have "ds = []" by simp
    with no True show ?thesis by simp
  next
    case False
    have "nms_loop t m ds (keep @ [d]) = (keep @ [d]) @ ds"
      using Cons.prems by (intro Cons.IH) auto
    with no False show ?thesis by simp
  qed
qed

text \<open>The sort: a stable rearrangement of the input into descending score.\<close>

lemma sorted_desc_sorted: "sorted (map (\<lambda>d. - score d) (sorted_desc dets))"
  by (simp add: sorted_desc_def)

lemma sorted_desc_descending:
  assumes "i < j" "j < length (sorted_desc dets)"
  shows "score (sorted_desc dets ! j) \<le> score (sorted_desc dets ! i)"
  using sorted_desc_sorted [of dets] assms
  by (auto simp: sorted_map sorted_wrt_iff_nth_less)

lemma sorted_desc_stable:
  "filter (\<lambda>d. score d = s) (sorted_desc dets) = filter (\<lambda>d. score d = s) dets"
  using sort_key_stable [of "\<lambda>d. - score d" "- s" dets] by (simp add: sorted_desc_def)

lemma sorted_desc_mset: "mset (sorted_desc dets) = mset dets"
  by (simp add: sorted_desc_def)

lemma nms_subseq: "subseq (nms dets t m) (sorted_desc dets)"
  using nms_loop_prefix [of t m "sorted_desc dets" "[]"] by (auto simp: nms_def)

lemma nms_set: "set (nms dets t m) \<subseteq> set dets"
proof -
  have "set (nms dets t m) \<subseteq> set (sorted_desc dets)"
    using nms_subseq [of dets t m] by (auto dest: list_emb_set)
  then show ?thesis by (simp add: sorted_desc_def)
qed

lemma nms_sorted: "sorted (map (\<lambda>d. - score d) (nms dets t m))"
proof -
  have "sorted_wrt (\<lambda>a b. - score a \<le> - score b) (sorted_desc dets)"
    using sorted_desc_sorted [of dets] by (simp add: sorted_map)
  then have "sorted_wrt (\<lambda>a b. - score a \<le> - score b) (nms dets t m)"
    by (rule subseq_sorted_wrt [OF nms_subseq])
  then show ?thesis by (simp add: sorted_map)
qed

lemma nms_pairwise_wrt: "sorted_wrt (\<lambda>k d. iou d k \<le> t) (nms dets t m)"
  using nms_loop_pairwise [of t "[]" m "sorted_desc dets"] by (simp add: nms_def)

lemma nms_pairwise:
  assumes "i < j" "j < length (nms dets t m)"
  shows "iou (nms dets t m ! i) (nms dets t m ! j) \<le> t
       \<and> iou (nms dets t m ! j) (nms dets t m ! i) \<le> t"
  using nms_pairwise_wrt [of t dets m] assms
  by (simp add: sorted_wrt_iff_nth_less iou_sym)

lemma nms_length: "int (length (nms dets t m)) \<le> max m 1"
  using nms_loop_length [of t m "sorted_desc dets" "[]"] by (simp add: nms_def)

lemma nms_single: "nms [d] t m = [d]"
  by (simp add: nms_def sorted_desc_def)

lemma hd_sort_key:
  assumes "xs \<noteq> []"
  shows "hd (sort_key f xs) = hd (filter (\<lambda>x. \<forall>y\<in>set xs. f x \<le> f y) xs)"
proof -
  from assms have "sort_key f xs \<noteq> []" by (metis length_0_conv length_sort)
  then obtain s S where S: "sort_key f xs = s # S" by (cases "sort_key f xs") auto
  have "sorted (map f (s # S))" using sorted_sort_key [of f xs] S by simp
  then have "\<forall>y\<in>set (s # S). f s \<le> f y" by auto
  moreover have "set (s # S) = set xs" using set_sort [of f xs] S by simp
  ultimately have le: "\<forall>y\<in>set xs. f s \<le> f y" and mem: "s \<in> set xs" by auto
  have "(\<forall>y\<in>set xs. f x \<le> f y) \<longleftrightarrow> f x = f s" if "x \<in> set xs" for x
  proof
    assume "\<forall>y\<in>set xs. f x \<le> f y"
    then have "f x \<le> f s" using mem by blast
    moreover have "f s \<le> f x" using le that by blast
    ultimately show "f x = f s" by simp
  next
    assume "f x = f s"
    then show "\<forall>y\<in>set xs. f x \<le> f y" using le by simp
  qed
  then have "filter (\<lambda>x. \<forall>y\<in>set xs. f x \<le> f y) xs = filter (\<lambda>x. f x = f s) xs"
    by (intro filter_cong) auto
  also have "\<dots> = filter (\<lambda>x. f x = f s) (sort_key f xs)"
    by (simp add: sort_key_stable)
  also have "\<dots> = s # filter (\<lambda>x. f x = f s) S" by (simp add: S)
  finally show ?thesis by (simp add: S)
qed

text \<open>
  What the function guarantees on every input: the output is a subsequence of the
  input in stable descending order of score, kept boxes overlap pairwise by at most the
  threshold, and the length is at most \<open>max_det\<close> when \<open>max_det\<close> is at least 1.
\<close>

lemma nms_sound:
  "subseq (nms dets t m) (sorted_desc dets)
   \<and> mset (sorted_desc dets) = mset dets
   \<and> (\<forall>i j. i < j \<and> j < length (sorted_desc dets)
          \<longrightarrow> score (sorted_desc dets ! j) \<le> score (sorted_desc dets ! i))
   \<and> (\<forall>s. filter (\<lambda>d. score d = s) (sorted_desc dets) = filter (\<lambda>d. score d = s) dets)
   \<and> (\<forall>i j. i < j \<and> j < length (nms dets t m)
          \<longrightarrow> iou (nms dets t m ! i) (nms dets t m ! j) \<le> t)
   \<and> (1 \<le> m \<longrightarrow> int (length (nms dets t m)) \<le> m)"
  using nms_subseq [of dets t m] sorted_desc_mset [of dets] nms_length [of dets t m]
  by (auto simp: sorted_desc_descending sorted_desc_stable nms_pairwise)

text \<open>
  C2. The claim bounds the length of the output by \<open>max_det\<close> on every input. The
  loop tests the bound only after it has appended a detection, so with \<open>max_det = 0\<close>
  a non-empty input yields one detection.
\<close>

theorem nms_max_det_zero:
  "nms [det_a] (45 / 100) 0 = [det_a] \<and> \<not> int (length (nms [det_a] (45 / 100) 0)) \<le> 0"
  by (simp add: nms_def sorted_desc_def)

text \<open>
  C9. Greedy NMS is idempotent: applied to its own output, with the same threshold and
  the same bound, it returns that output unchanged.
\<close>

theorem nms_idempotent: "nms (nms dets t m) t m = nms dets t m"
proof (cases "nms dets t m = []")
  case True
  then show ?thesis by (simp add: nms_def)
next
  case False
  let ?K = "nms dets t m"
  have s: "sorted_desc ?K = ?K"
    unfolding sorted_desc_def by (rule sort_key_id_if_sorted) (rule nms_sorted)
  have "nms_loop t m ?K [] = [] @ ?K"
  proof (rule nms_loop_fixed)
    show "sorted_wrt (\<lambda>k d. iou d k \<le> t) ([] @ ?K)" by (simp add: nms_pairwise_wrt)
    show "length ?K \<le> 1 \<or> int (length [] + length ?K) \<le> m"
      using nms_length [of dets t m] by auto
  qed
  with False s show ?thesis by (simp add: nms_def [of ?K])
qed

text \<open>
  C10. On a non-empty input, with \<open>max_det\<close> at least 1 and any threshold, the output
  is non-empty and its first element is the highest-scoring input detection, the first
  such in the original order when scores tie.
\<close>

theorem nms_keeps_top:
  assumes "dets \<noteq> []" "1 \<le> m"
  shows "nms dets t m \<noteq> []
       \<and> hd (nms dets t m) = hd (filter (\<lambda>d. \<forall>d'\<in>set dets. score d' \<le> score d) dets)
       \<and> hd (nms dets t m) \<in> set dets
       \<and> (\<forall>d'\<in>set dets. score d' \<le> score (hd (nms dets t m)))"
proof -
  from assms(1) have ne: "sorted_desc dets \<noteq> []"
    by (metis length_0_conv length_sort sorted_desc_def)
  then obtain s S where S: "sorted_desc dets = s # S" by (cases "sorted_desc dets") auto
  obtain ys where "nms_loop t m S [s] = [s] @ ys"
    using nms_loop_prefix [of t m S "[s]"] by blast
  then have out: "nms dets t m \<noteq> [] \<and> hd (nms dets t m) = s"
    using assms(1) S by (auto simp: nms_def)
  have "hd (sorted_desc dets) = hd (filter (\<lambda>d. \<forall>d'\<in>set dets. - score d \<le> - score d') dets)"
    unfolding sorted_desc_def by (rule hd_sort_key [OF assms(1)])
  then have first: "s = hd (filter (\<lambda>d. \<forall>d'\<in>set dets. score d' \<le> score d) dets)"
    using S by simp
  have "s \<in> set (sorted_desc dets)" using S by simp
  then have mem: "s \<in> set dets" by (simp add: sorted_desc_def)
  have "sorted (map (\<lambda>d. - score d) (s # S))" using sorted_desc_sorted [of dets] S by simp
  then have "\<forall>d'\<in>set (s # S). score d' \<le> score s" by auto
  moreover have "set dets = set (s # S)" using S [symmetric] by (simp add: sorted_desc_def)
  ultimately have "\<forall>d'\<in>set dets. score d' \<le> score s" by simp
  with out first mem show ?thesis by simp
qed

theorem nms_keeps_top_witness:
  "nms [det_c, det_a, det_b] (45 / 100) 50 \<noteq> []
   \<and> hd (nms [det_c, det_a, det_b] (45 / 100) 50) = det_a"
  using nms_keeps_top [of "[det_c, det_a, det_b]" 50 "45 / 100"]
  by (simp add: det_a_def det_b_def det_c_def)

subsection \<open>Decoder\<close>

lemma clamp01_range: "0 \<le> clamp01 v \<and> clamp01 v \<le> 1"
  by (simp add: clamp01_def)

text \<open>
  An appended detection has clamped coordinates and passed the test of line 142. The
  value that is clamped plays no role.
\<close>

lemma candidate_box:
  assumes "candidate lb t bc bs x1 y1 x2 y2 i = Some d"
  shows "0 \<le> xmin d \<and> xmin d < xmax d \<and> xmax d \<le> 1
       \<and> 0 \<le> ymin d \<and> ymin d < ymax d \<and> ymax d \<le> 1"
  using assms by (auto simp: candidate_def Let_def clamp01_range split: if_splits)

lemma map_filter_mem:
  "d \<in> set (List.map_filter f xs) \<Longrightarrow> \<exists>x\<in>set xs. f x = Some d"
  by (auto simp: List.map_filter_def)

lemma decode_rows_box:
  assumes "decode_rows x n lb t = Inr ds" "d \<in> set ds"
  shows "0 \<le> xmin d \<and> xmin d < xmax d \<and> xmax d \<le> 1
       \<and> 0 \<le> ymin d \<and> ymin d < ymax d \<and> ymax d \<le> 1"
proof -
  from assms obtain bc bs x1 y1 x2 y2 where
    "d \<in> set (List.map_filter (candidate lb t bc bs x1 y1 x2 y2) [0..<n])"
    by (auto simp: decode_rows_def Let_def split: if_splits)
  then obtain i where "candidate lb t bc bs x1 y1 x2 y2 i = Some d"
    by (blast dest: map_filter_mem)
  then show ?thesis by (rule candidate_box)
qed

lemma decode_yolov8_box:
  assumes "decode_yolov8 outputs lb t = Inr ds" "d \<in> set ds"
  shows "0 \<le> xmin d \<and> xmin d < xmax d \<and> xmax d \<le> 1
       \<and> 0 \<le> ymin d \<and> ymin d < ymax d \<and> ymax d \<le> 1"
proof -
  from assms have "\<exists>x n. decode_rows x n lb t = Inr ds"
    by (auto simp: decode_yolov8_def
             split: list.splits prod.splits ort_value.splits sum.splits if_splits)
  with assms(2) show ?thesis by (blast dest: decode_rows_box)
qed

text \<open>The decoder on the concrete output with one candidate, in two steps.\<close>

lemma layout_one_box:
  "layout_matrix [1, 1, 6] [160, 160, 100, 100, 9 / 10, 1 / 10] =
     Inr (1, [[160], [160], [100], [100], [9 / 10], [1 / 10]])"
  by (simp add: layout_matrix_def reshape0_def layout_of_def transpose10_def eval_nat_numeral)

lemma decode_rows_one_box:
  "decode_rows [[160], [160], [100], [100], [9 / 10], [1 / 10]] 1 lb0 (1 / 4) = Inr [det_a]"
  by (simp add: decode_rows_def list_max_def list_min_def argmax_def candidate_def clamp01_def
      List.map_filter_def lb0_def det_a_def Let_def)

lemma decode_one_box: "decode_yolov8 one_box lb0 (1 / 4) = Inr [det_a]"
  by (simp add: decode_yolov8_def one_box_def layout_one_box [unfolded One_nat_def]
      decode_rows_one_box [unfolded One_nat_def])

lemma decode_flat_output: "decode_yolov8 flat_output lb t = Inr []"
  by (simp add: decode_yolov8_def flat_output_def)

text \<open>
  C3, as the code has it. A three-dimensional output with non-batch dimensions
  \<open>p\<close> and \<open>q\<close> is read as channel-first exactly when \<open>6 \<le> p\<close> and \<open>p < q\<close>:
  then \<open>x\<close> is the array itself and there are \<open>q\<close> candidates. In every other
  case, also when \<open>p = q\<close>, the array is taken as box-first and transposed: entry
  \<open>(i, j)\<close> of \<open>x\<close> is entry \<open>(j, i)\<close> of the array, and there are \<open>p\<close>
  candidates. The decoder then works on this \<open>x\<close>.
\<close>

theorem layout_determination:
  assumes "0 < b"
  shows "\<exists>n x. layout_matrix [b, p, q] data = Inr (n, x)
           \<and> (if 6 \<le> p \<and> p < q
               then n = q \<and> length x = p \<and> (\<forall>i<p. \<forall>j<q. x ! i ! j = data ! (i * q + j))
               else n = p \<and> length x = q \<and> (\<forall>i<q. \<forall>j<p. x ! i ! j = data ! (j * q + i)))
           \<and> (6 \<le> p \<or> 6 \<le> q \<longrightarrow>
                 decode_yolov8 ((name, Tensor [b, p, q] data) # rest) lb t
                   = decode_rows x n lb t)"
  using assms
  by (simp add: layout_matrix_def reshape0_def layout_of_def transpose10_def decode_yolov8_def)

theorem layout_determination_witness:
  "layout_matrix [1, 1, 6] [160, 160, 100, 100, 9 / 10, 1 / 10] =
     Inr (1, [[160], [160], [100], [100], [9 / 10], [1 / 10]])"
proof -
  obtain n x where "layout_matrix [1, 1, 6] [160, 160, 100, 100, 9 / 10, 1 / 10] = Inr (n, x)"
    and "n = 1"
    using layout_determination
      [of 1 1 6 "[160, 160, 100, 100, 9 / 10, 1 / 10]" "''output0''" "[]" lb0 "1 / 4"]
    by auto
  then show ?thesis
    by (simp add: layout_matrix_def reshape0_def layout_of_def transpose10_def eval_nat_numeral)
qed

text \<open>
  C3 as stated fails: a six by six output, whose two non-batch dimensions are equal, is
  not read as channel-first. Row \<open>0\<close> of \<open>x\<close> is column \<open>0\<close> of the array.
\<close>

theorem layout_equal_dims_counterexample:
  "layout_of [1, 6, 6] = BoxFirst
   \<and> layout_matrix [1, 6, 6] square_data =
       Inr (6, [[0, 10, 20, 30, 40, 50],
                [1, 11, 21, 31, 41, 51],
                [2, 12, 22, 32, 42, 52],
                [3, 13, 23, 33, 43, 53],
                [4, 14, 24, 34, 44, 54],
                [5, 15, 25, 35, 45, 55]])"
  by (simp add: layout_matrix_def reshape0_def layout_of_def transpose10_def square_data_def
      eval_nat_numeral)

subsection \<open>Session loop\<close>

lemma env0_simps:
  "open_image env0 ''AAAA'' = Inr ((640, 480), one_box)"
  "open_image env0 ''BBBB'' = Inr ((640, 480), flat_output)"
  "session_run env0 outs = Inr outs"
  "perf_counter env0 n = real n"
  by (simp_all add: env0_def)

lemmas frame_defs = handle_frame_def msg_get_def py_int_def py_float_def falsy_def
  try_body_def decode_image_from_b64_def MODEL_INPUT_SIZE_def

lemma dict_one_box: "dict_of_pairs one_box = one_box"
  by (simp add: dict_of_pairs_def one_box_def)

lemma dict_flat_output: "dict_of_pairs flat_output = flat_output"
  by (simp add: dict_of_pairs_def flat_output_def)

lemma preprocess_env0:
  "preprocess_letterbox env0 ((640, 480), outs) 320 = Inr (outs, lb0)"
  by (simp add: preprocess_letterbox_def env0_def letterbox_params_scenario lb0_def)

lemma handle_msg_ok:
  "handle_frame env0 0 msg_ok =
     Inr (3, FrameResult \<lparr> frame_id = 7, capture_ts = 0, recv_ts = 0, server_recv_ts = 0,
               inference_ts = 2000, inference_ms = 1000, detections = [det_a] \<rparr>)"
  by (simp add: frame_defs msg_ok_def env0_simps preprocess_env0
        dict_one_box decode_one_box nms_single)

text \<open>A successful response carries the output of NMS on what the decoder returned.\<close>

lemma handle_frame_result:
  assumes "handle_frame E n msg = Inr (n', FrameResult fr)"
  shows "\<exists>outputs lb dets. decode_yolov8 outputs lb (25 / 100) = Inr dets
           \<and> detections fr = nms dets (45 / 100) 50"
  using assms unfolding handle_frame_def try_body_def Let_def
  by (fastforce split: sum.splits prod.splits if_splits)

text \<open>
  C1. Every detection that the decoder emits, and hence every detection of a successful
  frame result, has \<open>0 \<le> xmin < xmax \<le> 1\<close> and \<open>0 \<le> ymin < ymax \<le> 1\<close>: each
  coordinate is clamped to \<open>[0, 1]\<close> and a candidate that is degenerate after the clamp
  is dropped.
\<close>

theorem detections_normalized:
  fixes E :: "('img, 'arr) env"
  shows "(decode_yolov8 outputs lb thresh = Inr dets \<longrightarrow>
            (\<forall>d\<in>set dets. 0 \<le> xmin d \<and> xmin d < xmax d \<and> xmax d \<le> 1
                         \<and> 0 \<le> ymin d \<and> ymin d < ymax d \<and> ymax d \<le> 1))
       \<and> (handle_frame E n msg = Inr (n', FrameResult fr) \<longrightarrow>
            (\<forall>d\<in>set (detections fr). 0 \<le> xmin d \<and> xmin d < xmax d \<and> xmax d \<le> 1
                         \<and> 0 \<le> ymin d \<and> ymin d < ymax d \<and> ymax d \<le> 1))"
proof (rule conjI; intro impI ballI)
  fix d assume "decode_yolov8 outputs lb thresh = Inr dets" "d \<in> set dets"
  then show "0 \<le> xmin d \<and> xmin d < xmax d \<and> xmax d \<le> 1
           \<and> 0 \<le> ymin d \<and> ymin d < ymax d \<and> ymax d \<le> 1"
    by (rule decode_yolov8_box)
next
  fix d assume h: "handle_frame E n msg = Inr (n', FrameResult fr)"
    and d: "d \<in> set (detections fr)"
  from handle_frame_result [OF h] obtain outs g ds where
    dec: "decode_yolov8 outs g (25 / 100) = Inr ds" and fr: "detections fr = nms ds (45 / 100) 50"
    by blast
  from d fr have "d \<in> set ds" using nms_set [of ds "45 / 100" 50] by auto
  with dec show "0 \<le> xmin d \<and> xmin d < xmax d \<and> xmax d \<le> 1
           \<and> 0 \<le> ymin d \<and> ymin d < ymax d \<and> ymax d \<le> 1"
    by (rule decode_yolov8_box)
qed

theorem detections_normalized_witness:
  "decode_yolov8 one_box lb0 (1 / 4) = Inr [det_a]
   \<and> handle_frame env0 0 msg_ok =
       Inr (3, FrameResult \<lparr> frame_id = 7, capture_ts = 0, recv_ts = 0, server_recv_ts = 0,
                 inference_ts = 2000, inference_ms = 1000, detections = [det_a] \<rparr>)
   \<and> 0 \<le> xmin det_a \<and> xmin det_a < xmax det_a \<and> xmax det_a \<le> 1
   \<and> 0 \<le> ymin det_a \<and> ymin det_a < ymax det_a \<and> ymax det_a \<le> 1"
  using detections_normalized
    [where outputs = one_box and lb = lb0 and thresh = "1 / 4" and dets = "[det_a]"
       and E = env0 and n = 0 and msg = msg_ok and n' = 3
       and fr = "\<lparr> frame_id = 7, capture_ts = 0, recv_ts = 0, server_recv_ts = 0,
                   inference_ts = 2000, inference_ms = 1000, detections = [det_a] \<rparr>"]
    decode_one_box handle_msg_ok
  by simp

text \<open>
  C6, as the code has it. When the first output has an unexpected shape or rank (no
  shape at all, not three-dimensional, or both non-batch dimensions below 6) the decoder
  raises nothing and returns the empty list, and a frame whose earlier steps succeed is
  answered with a successful frame result without detections.
\<close>

theorem unexpected_shape_result:
  fixes E :: "('img, 'arr) env"
  assumes "case out of NonTensor \<Rightarrow> True
           | Tensor dims data \<Rightarrow> length dims \<noteq> 3 \<or> (dims ! 1 < 6 \<and> dims ! 2 < 6)"
    and "msg_get msg ''frame_id'' (PInt (- 1)) = Inr v1" "py_int E v1 = Inr fid"
    and "msg_get msg ''capture_ts'' (PInt 0) = Inr v2" "py_float E v2 = Inr cts"
    and "msg_get msg ''image_b64'' PNone = Inr v3" "\<not> falsy v3"
    and "decode_image_from_b64 E v3 = Inr img"
    and "preprocess_letterbox E img MODEL_INPUT_SIZE = Inr (arr, lb)"
    and "session_run E arr = Inr outs"
    and "dict_of_pairs outs = (name, out) # rest"
  shows "decode_yolov8 ((name, out) # rest) lb t = Inr []
       \<and> handle_frame E n msg =
           Inr (n + 3, FrameResult \<lparr> frame_id = fid, capture_ts = cts,
                  recv_ts = perf_counter E n * 1000, server_recv_ts = perf_counter E n * 1000,
                  inference_ts = perf_counter E (n + 2) * 1000,
                  inference_ms = perf_counter E (n + 2) * 1000 - perf_counter E (n + 1) * 1000,
                  detections = [] \<rparr>)"
proof -
  have d: "decode_yolov8 ((name, out) # rest) lb t = Inr []" for t
    using assms(1) by (auto simp: decode_yolov8_def split: ort_value.splits)
  have "try_body E (n + 1) fid cts (perf_counter E n * 1000) v3 =
          (n + 3, Inr \<lparr> frame_id = fid, capture_ts = cts,
                  recv_ts = perf_counter E n * 1000, server_recv_ts = perf_counter E n * 1000,
                  inference_ts = perf_counter E (n + 2) * 1000,
                  inference_ms = perf_counter E (n + 2) * 1000 - perf_counter E (n + 1) * 1000,
                  detections = [] \<rparr>)"
    using assms(8-11) by (simp add: try_body_def d nms_def Let_def)
  then show ?thesis using assms(2-7) d by (simp add: handle_frame_def)
qed

theorem unexpected_shape_result_witness:
  "decode_yolov8 flat_output lb0 (1 / 4) = Inr []
   \<and> handle_frame env0 5 msg_flat =
       Inr (8, FrameResult \<lparr> frame_id = 7, capture_ts = 0, recv_ts = 5000,
                 server_recv_ts = 5000, inference_ts = 7000, inference_ms = 1000,
                 detections = [] \<rparr>)"
proof -
  have "decode_yolov8 ((''output0'', Tensor [1, 6] [160, 160, 100, 100, 9 / 10, 1 / 10]) # [])
          lb0 (1 / 4) = Inr []
      \<and> handle_frame env0 5 msg_flat =
          Inr (5 + 3, FrameResult \<lparr> frame_id = 7, capture_ts = 0,
                 recv_ts = perf_counter env0 5 * 1000, server_recv_ts = perf_counter env0 5 * 1000,
                 inference_ts = perf_counter env0 (5 + 2) * 1000,
                 inference_ms = perf_counter env0 (5 + 2) * 1000 - perf_counter env0 (5 + 1) * 1000,
                 detections = [] \<rparr>)"
  proof (rule unexpected_shape_result
      [where ?v1.0 = "PInt 7" and ?v2.0 = "PInt 0" and ?v3.0 = "PStr ''BBBB''"
         and img = "((640, 480), flat_output)" and arr = flat_output and outs = flat_output])
    show "case Tensor [1, 6] [160, 160, 100, 100, 9 / 10, 1 / 10] of NonTensor \<Rightarrow> True
          | Tensor dims data \<Rightarrow> length dims \<noteq> 3 \<or> (dims ! 1 < 6 \<and> dims ! 2 < 6)"
      by simp
    show "msg_get msg_flat ''frame_id'' (PInt (- 1)) = Inr (PInt 7)"
      by (simp add: msg_get_def msg_flat_def)
    show "py_int env0 (PInt 7) = Inr 7" by (simp add: py_int_def)
    show "msg_get msg_flat ''capture_ts'' (PInt 0) = Inr (PInt 0)"
      by (simp add: msg_get_def msg_flat_def)
    show "py_float env0 (PInt 0) = Inr 0" by (simp add: py_float_def)
    show "msg_get msg_flat ''image_b64'' PNone = Inr (PStr ''BBBB'')"
      by (simp add: msg_get_def msg_flat_def)
    show "\<not> falsy (PStr ''BBBB'')" by (simp add: falsy_def)
    show "decode_image_from_b64 env0 (PStr ''BBBB'') = Inr ((640, 480), flat_output)"
      by (simp add: decode_image_from_b64_def env0_simps)
    show "preprocess_letterbox env0 ((640, 480), flat_output) MODEL_INPUT_SIZE
            = Inr (flat_output, lb0)"
      by (simp add: MODEL_INPUT_SIZE_def preprocess_env0)
    show "session_run env0 flat_output = Inr flat_output" by (simp add: env0_simps)
    show "dict_of_pairs flat_output =
            (''output0'', Tensor [1, 6] [160, 160, 100, 100, 9 / 10, 1 / 10]) # []"
      by (simp add: dict_of_pairs_def flat_output_def)
  qed
  then show ?thesis by (simp add: flat_output_def env0_simps)
qed

text \<open>
  C6 as stated fails: the session answers a two-dimensional output with a successful
  frame result, not with an error.
\<close>

theorem unexpected_shape_counterexample:
  "handle_frame env0 0 msg_flat =
     Inr (3, FrameResult \<lparr> frame_id = 7, capture_ts = 0, recv_ts = 0, server_recv_ts = 0,
               inference_ts = 2000, inference_ms = 1000, detections = [] \<rparr>)"
  by (simp add: frame_defs msg_flat_def env0_simps preprocess_env0
        dict_flat_output decode_flat_output nms_def)

text \<open>
  A frame with a zero-sized image is answered with the \<^verbatim>\<open>ZeroDivisionError\<close> of the
  transform.
\<close>

lemma zero_sized_frame:
  "handle_frame env0 0 (PDict [(''frame_id'', PInt 7), (''image_b64'', PStr ''CCCC'')]) =
     Inr (1, FrameError 7 ZeroDivisionError)"
  by (simp add: frame_defs preprocess_letterbox_def letterbox_params_def env0_def)

text \<open>
  Once lines 195--197 have produced the three fields, the frame is always answered: an
  exception in the body is caught and reported.
\<close>

lemma handle_frame_caught:
  assumes "msg_get msg ''frame_id'' (PInt (- 1)) = Inr v1" "py_int E v1 = Inr fid"
    and "msg_get msg ''capture_ts'' (PInt 0) = Inr v2" "py_float E v2 = Inr cts"
  shows "\<exists>n' r. handle_frame E n msg = Inr (n', r)"
proof -
  from assms(1) obtain kvs where "msg = PDict kvs"
    by (cases msg) (simp_all add: msg_get_def)
  then obtain v3 where "msg_get msg ''image_b64'' PNone = Inr v3"
    by (simp add: msg_get_def)
  with assms show ?thesis
    by (cases "try_body E (n + 1) fid cts (perf_counter E n * 1000) v3")
       (auto simp: handle_frame_def Let_def split: sum.splits)
qed

text \<open>
  A dictionary without \<^verbatim>\<open>image_b64\<close> whose other two fields convert is answered with
  the error message, and the loop goes on with the next event.
\<close>

lemma missing_image_answered:
  assumes "msg = PDict kvs" "map_of kvs ''image_b64'' = None"
    and "py_int E (case map_of kvs ''frame_id'' of None \<Rightarrow> PInt (- 1) | Some v \<Rightarrow> v) = Inr fid"
    and "py_float E (case map_of kvs ''capture_ts'' of None \<Rightarrow> PInt 0 | Some v \<Rightarrow> v) = Inr cts"
  shows "handle_frame E n msg = Inr (n, ErrorOnly ''missing image_b64'')"
    and "detect_ws E n (Received msg # evs) =
           (ErrorOnly ''missing image_b64'' # fst (detect_ws E n evs), snd (detect_ws E n evs))"
  using assms by (simp_all add: handle_frame_def msg_get_def falsy_def split: prod.splits)

text \<open>
  C5. The claim is that no frame message makes the session loop end with an error. The
  conversions of lines 195--196 stand outside the \<^verbatim>\<open>try\<close>: a message whose
  \<^verbatim>\<open>frame_id\<close> is \<^verbatim>\<open>null\<close> raises \<^verbatim>\<open>TypeError\<close> there, nothing is sent, the coroutine
  ends, and the well-formed frame that follows is never processed.
\<close>

theorem bad_frame_id_terminates:
  "detect_ws env0 0
     [Received (PDict [(''frame_id'', PNone), (''image_b64'', PStr ''AAAA'')]), Received msg_ok]
     = ([], Crashed TypeError)"
  by (simp add: handle_frame_def msg_get_def py_int_def)

text \<open>
  C8. The claim is that every structured message without \<^verbatim>\<open>image_b64\<close> is answered
  with \<^verbatim>\<open>missing image_b64\<close> and the loop continues. The test of line 198 comes after
  the conversions of lines 195--196: a message without \<^verbatim>\<open>image_b64\<close> whose
  \<^verbatim>\<open>frame_id\<close> is \<^verbatim>\<open>null\<close> raises \<^verbatim>\<open>TypeError\<close> first, nothing is sent and the loop
  ends.
\<close>

theorem missing_image_bad_frame_id:
  "detect_ws env0 0 [Received (PDict [(''frame_id'', PNone)]), Received (PDict [])]
     = ([], Crashed TypeError)"
  by (simp add: handle_frame_def msg_get_def py_int_def)

end
